theory Spec2Isabelle
  imports Main
begin

section \<open>The per-host HTTP client of client.go\<close>

text \<open>
  A shallow embedding of the pool manager, the request executor, the retry
  layer, the deadline harness and the redirect follower of \<^verbatim>\<open>client.go\<close>.

  Conventions.
  \<^item> A Go \<^verbatim>\<open>error\<close> value is an \<open>error option\<close>; \<open>None\<close> is \<^verbatim>\<open>nil\<close>.
  \<^item> \<^verbatim>\<open>time.Time\<close> is an integer number of nanoseconds; \<^verbatim>\<open>time.Duration\<close>
    is an \<^verbatim>\<open>int64\<close> of nanoseconds, and its arithmetic wraps (\<open>i64\<close>).
  \<^item> The transport, the message serializer and parser and the dialer are
    external collaborators: their outcomes are read from an environment of
    oracles, indexed by the number of dials and of exchanges made so far.
  \<^item> The connection lock makes each critical section atomic; the model runs one
    operation at a time. The free-lists that only recycle allocations
    (\<^verbatim>\<open>clientConnPool\<close>, \<^verbatim>\<open>readerPool\<close>, \<^verbatim>\<open>writerPool\<close>, \<^verbatim>\<open>timerPool\<close>,
    \<^verbatim>\<open>errorChPool\<close>) are left out, and so is the TLS wrapping of a dialed
    connection, which cannot fail at that point.
\<close>

subsection \<open>Errors, time\<close>

datatype error =
    ErrNoFreeConns
  | ErrTimeout
  | ErrConnectionClosed
  | EOF
  | errMissingLocation
  | errTooManyRedirects
  | OtherError string

type_synonym Time = int
type_synonym Duration = int

definition i64 :: "int \<Rightarrow> int" where
  "i64 x = (x + 2 ^ 63) mod 2 ^ 64 - 2 ^ 63"

definition maxDuration :: Duration where
  "maxDuration = 2 ^ 63 - 1"

definition minDuration :: Duration where
  "minDuration = - (2 ^ 63)"

definition Millisecond :: Duration where
  "Millisecond = 1000000"

definition Second :: Duration where
  "Second = 1000000000"

text \<open>\<^verbatim>\<open>t.Sub(u)\<close> of the standard library: the difference, saturated to the
  range of a Duration.\<close>

definition Sub :: "Time \<Rightarrow> Time \<Rightarrow> Duration" where
  "Sub t u = (if t - u < minDuration then minDuration
              else if maxDuration < t - u then maxDuration else t - u)"

subsection \<open>Requests and responses\<close>

record Request =
  Method :: string
  RequestURI :: string
  reqHost :: string
  parsedURI :: bool
  reqConnectionClose :: bool
  userAgent :: string
  reqBody :: string

record Response =
  StatusCode :: int
  respHeaders :: "(string \<times> string) list"
  respConnectionClose :: bool
  disableNormalizing :: bool
  SkipBody :: bool
  body :: string

text \<open>Modelled from the spec: the method predicates of the message layer
  (\<^verbatim>\<open>RequestHeader.IsGet\<close>, \<^verbatim>\<open>IsHead\<close>, \<^verbatim>\<open>IsPut\<close>), which are not in
  \<^verbatim>\<open>client.go\<close>; each one tests the request method.\<close>

definition IsGet :: "Request \<Rightarrow> bool" where
  "IsGet req = (Method req = ''GET'')"

definition IsHead :: "Request \<Rightarrow> bool" where
  "IsHead req = (Method req = ''HEAD'')"

definition IsPut :: "Request \<Rightarrow> bool" where
  "IsPut req = (Method req = ''PUT'')"

text \<open>Modelled from the spec: \<^verbatim>\<open>AcquireResponse\<close> "returns an empty Response
  instance"; \<^verbatim>\<open>Response.Reset\<close>, not in \<^verbatim>\<open>client.go\<close>, brings a response back
  to that state.\<close>

definition emptyResponse :: Response where
  "emptyResponse = \<lparr>StatusCode = 0, respHeaders = [], respConnectionClose = False,
     disableNormalizing = False, SkipBody = False, body = []\<rparr>"

definition Reset :: "Response \<Rightarrow> Response" where
  "Reset resp = emptyResponse"

text \<open>\<^verbatim>\<open>resp.Header.peek(key)\<close>: the value of the header, empty when absent.\<close>

definition peek :: "Response \<Rightarrow> string \<Rightarrow> string" where
  "peek resp key = (case map_of (respHeaders resp) key of None \<Rightarrow> [] | Some v \<Rightarrow> v)"

subsection \<open>The host client and its world\<close>

record clientConn =
  cc_c :: nat
  createdTime :: Time
  cc_lastUseTime :: Time

text \<open>The fields of \<^verbatim>\<open>HostClient\<close> that the modelled functions read or write,
  followed by the state outside the struct: the clock, the connections closed
  so far, the number of responses in \<^verbatim>\<open>responsePool\<close>, \<^verbatim>\<open>startTimeUnix\<close>, and
  the positions in the oracle streams (dials and exchanges made so far).\<close>

record HostClient =
  Addr :: string
  Name :: string
  customDial :: bool
  IsTLS :: bool
  MaxConns :: int
  MaxConnDuration :: Duration
  ReadTimeout :: Duration
  WriteTimeout :: Duration
  DisableHeaderNamesNormalizing :: bool
  clientName :: "string option"
  lastUseTime :: int
  connsCount :: int
  conns :: "clientConn list"
  cleanerStarted :: nat
  addrs :: "string list"
  addrIdx :: nat
  now :: Time
  startTimeUnix :: int
  closedConns :: "nat list"
  responsePool :: nat
  dialsMade :: nat
  exchanges :: nat

text \<open>The outcomes of the external collaborators during one exchange.\<close>

record exchange_io =
  setWriteDeadline :: "error option"
  writeReq :: "Request \<Rightarrow> error option"
  flush :: "error option"
  writeElapsed :: nat
  setReadDeadline :: "error option"
  readResp :: "Response \<Rightarrow> error option \<times> Response"
  readElapsed :: nat

text \<open>The environment: the \<open>i\<close>-th dial to an address takes some time and
  yields an error or a connection; the \<open>i\<close>-th exchange has its outcomes; and
  two constants of the package that are declared outside \<^verbatim>\<open>client.go\<close>.\<close>

record env =
  dial :: "nat \<Rightarrow> string \<Rightarrow> nat \<times> (error + nat)"
  exch :: "nat \<Rightarrow> exchange_io"
  DefaultDialTimeout :: Duration
  defaultUserAgent :: string

definition DefaultMaxConnsPerHost :: int where
  "DefaultMaxConnsPerHost = 512"

subsection \<open>Address rotation and dialing\<close>

fun splitComma :: "string \<Rightarrow> string list" where
  "splitComma [] = [[]]"
| "splitComma (x # xs) =
     (if x = CHR '','' then [] # splitComma xs
      else (case splitComma xs of [] \<Rightarrow> [[x]] | y # ys \<Rightarrow> (x # y) # ys))"

text \<open>\<^verbatim>\<open>nextAddr\<close>; \<^verbatim>\<open>addrIdx\<close> is a \<^verbatim>\<open>uint32\<close>. The list is never empty after
  the split, so \<^verbatim>\<open>addrs[0]\<close> is in range.\<close>

definition nextAddr :: "HostClient \<Rightarrow> string \<times> HostClient" where
  "nextAddr c =
     (let c1 = (if addrs c = [] then c\<lparr>addrs := splitComma (Addr c)\<rparr> else c) in
      if length (addrs c1) > 1
      then (addrs c1 ! (addrIdx c1 mod length (addrs c1)),
            c1\<lparr>addrIdx := (addrIdx c1 + 1) mod 2 ^ 32\<rparr>)
      else (hd (addrs c1), c1))"

definition addMissingPort :: "string \<Rightarrow> bool \<Rightarrow> string" where
  "addMissingPort addr isTLS =
     (if CHR '':'' \<in> set addr then addr
      else addr @ (if isTLS then '':443'' else '':80''))"

text \<open>\<^verbatim>\<open>dialHost\<close>: one dial, to the next address. The result is the pair
  \<^verbatim>\<open>(conn, err)\<close>.\<close>

definition dialHost :: "env \<Rightarrow> HostClient \<Rightarrow> (nat option \<times> error option) \<times> HostClient" where
  "dialHost e c =
     (let (addr0, c1) = nextAddr c;
          addr = (if customDial c1 then addr0 else addMissingPort addr0 (IsTLS c1));
          (d, r) = dial e (dialsMade c1) addr;
          c2 = c1\<lparr>dialsMade := dialsMade c1 + 1, now := now c1 + int d\<rparr>
      in case r of Inl err \<Rightarrow> ((None, Some err), c2)
                 | Inr conn \<Rightarrow> ((Some conn, None), c2))"

text \<open>The address that \<^verbatim>\<open>dialHost\<close> dials in the state \<open>c\<close>.\<close>

definition dialAddr :: "HostClient \<Rightarrow> string" where
  "dialAddr c =
     (if customDial (snd (nextAddr c)) then fst (nextAddr c)
      else addMissingPort (fst (nextAddr c)) (IsTLS (snd (nextAddr c))))"

definition dialTimeout :: "env \<Rightarrow> HostClient \<Rightarrow> Duration" where
  "dialTimeout e c =
     (let timeout = i64 (ReadTimeout c + WriteTimeout c)
      in if timeout \<le> 0 then DefaultDialTimeout e else timeout)"

text \<open>The loop of \<^verbatim>\<open>dialHostHard\<close>: \<open>n\<close> is the loop counter, \<open>err\<close> the
  error variable.\<close>

fun dialLoop :: "env \<Rightarrow> Time \<Rightarrow> nat \<Rightarrow> error option \<Rightarrow> HostClient
    \<Rightarrow> (nat option \<times> error option) \<times> HostClient" where
  "dialLoop e deadline 0 err c = ((None, err), c)"
| "dialLoop e deadline (Suc n) err c =
     (case dialHost e c of
        ((conn, None), c1) \<Rightarrow> ((conn, None), c1)
      | ((conn, Some err1), c1) \<Rightarrow>
          if Sub (now c1) deadline \<ge> 0 then ((None, Some err1), c1)
          else dialLoop e deadline n (Some err1) c1)"

definition dialHostHard :: "env \<Rightarrow> HostClient \<Rightarrow> (nat option \<times> error option) \<times> HostClient" where
  "dialHostHard e c =
     (let n = (if length (addrs c) = 0 then 1 else length (addrs c));
          deadline = now c + dialTimeout e c
      in dialLoop e deadline n None c)"

subsection \<open>The pool manager\<close>

text \<open>\<^verbatim>\<open>connsCount\<close> is a Go \<^verbatim>\<open>int\<close>, 64 bits wide: \<^verbatim>\<open>connsCount--\<close> and
  \<^verbatim>\<open>connsCount++\<close> wrap around. \<^verbatim>\<open>decConnsCount\<close> has no guard.\<close>

definition maxInt :: int where
  "maxInt = 2 ^ 63 - 1"

definition minInt :: int where
  "minInt = - (2 ^ 63)"

definition decConnsCount :: "HostClient \<Rightarrow> HostClient" where
  "decConnsCount c = c\<lparr>connsCount := i64 (connsCount c - 1)\<rparr>"

definition closeConn :: "clientConn \<Rightarrow> HostClient \<Rightarrow> HostClient" where
  "closeConn cc c = (decConnsCount c)\<lparr>closedConns := cc_c cc # closedConns c\<rparr>"

definition releaseConn :: "clientConn \<Rightarrow> HostClient \<Rightarrow> HostClient" where
  "releaseConn cc c = c\<lparr>conns := conns c @ [cc\<lparr>cc_lastUseTime := now c\<rparr>]\<rparr>"

definition maxConnsOf :: "HostClient \<Rightarrow> int" where
  "maxConnsOf c = (if MaxConns c \<le> 0 then DefaultMaxConnsPerHost else MaxConns c)"

text \<open>\<^verbatim>\<open>acquireConn\<close>. The spawned cleaner is recorded in \<open>cleanerStarted\<close>. The
  dialer never yields a nil connection without an error (\<^verbatim>\<open>dialHost\<close> panics
  on it), so the second branch of the case distinction below is never taken.\<close>

definition acquireConn :: "env \<Rightarrow> HostClient \<Rightarrow> (error + clientConn) \<times> HostClient" where
  "acquireConn e c =
     (if length (conns c) = 0 then
        (if connsCount c < maxConnsOf c then
           (let c1 = c\<lparr>connsCount := i64 (connsCount c + 1)\<rparr>;
                startCleaner = (connsCount c1 = 1)
            in case dialHostHard e c1 of
                 ((conn, Some err), c2) \<Rightarrow> (Inl err, decConnsCount c2)
               | ((None, None), c2) \<Rightarrow> (Inl (OtherError ''BUG: DialFunc returned (nil, nil)''), c2)
               | ((Some conn, None), c2) \<Rightarrow>
                   (Inr \<lparr>cc_c = conn, createdTime = now c2, cc_lastUseTime = 0\<rparr>,
                    if startCleaner then c2\<lparr>cleanerStarted := cleanerStarted c2 + 1\<rparr> else c2))
         else (Inl ErrNoFreeConns, c))
      else (Inr (last (conns c)), c\<lparr>conns := butlast (conns c)\<rparr>))"

text \<open>The operations on the pool, and a run of a sequence of them.\<close>

datatype pool_op = AcquireConn | ReleaseConn clientConn | CloseConn clientConn

fun applyOp :: "env \<Rightarrow> pool_op \<Rightarrow> HostClient \<Rightarrow> HostClient" where
  "applyOp e AcquireConn c = snd (acquireConn e c)"
| "applyOp e (ReleaseConn cc) c = releaseConn cc c"
| "applyOp e (CloseConn cc) c = closeConn cc c"

fun runOps :: "env \<Rightarrow> pool_op list \<Rightarrow> HostClient \<Rightarrow> HostClient" where
  "runOps e [] c = c"
| "runOps e (x # xs) c = runOps e xs (applyOp e x c)"

subsection \<open>The request executor\<close>

definition getClientName :: "env \<Rightarrow> HostClient \<Rightarrow> string \<times> HostClient" where
  "getClientName e c =
     (case clientName c of
        None \<Rightarrow>
          (let n = (if length (Name c) = 0 then defaultUserAgent e else Name c)
           in (n, c\<lparr>clientName := Some n\<rparr>))
      | Some n \<Rightarrow> (n, c))"

text \<open>\<^verbatim>\<open>responsePool\<close>: every response in it was reset when it was put back, so
  the pool is represented by the number of its elements, and an acquired
  response is empty whether it is recycled or new.\<close>

definition AcquireResponse :: "HostClient \<Rightarrow> Response \<times> HostClient" where
  "AcquireResponse c =
     (if responsePool c = 0 then (emptyResponse, c)
      else (emptyResponse, c\<lparr>responsePool := responsePool c - 1\<rparr>))"

definition ReleaseResponse :: "Response \<Rightarrow> HostClient \<Rightarrow> HostClient" where
  "ReleaseResponse resp c = c\<lparr>responsePool := responsePool c + 1\<rparr>"

definition isIdempotent :: "Request \<Rightarrow> bool" where
  "isIdempotent req = (IsGet req \<or> IsHead req \<or> IsPut req)"

text \<open>The condition under which \<^verbatim>\<open>do\<close> sets its local \<^verbatim>\<open>resetConnection\<close>.\<close>

definition resetConnectionOf :: "HostClient \<Rightarrow> clientConn \<Rightarrow> Request \<Rightarrow> bool" where
  "resetConnectionOf c cc req =
     (MaxConnDuration c > 0 \<and> Sub (now c) (createdTime cc) > MaxConnDuration c
      \<and> \<not> reqConnectionClose req)"

text \<open>The response as \<^verbatim>\<open>do\<close> hands it to \<^verbatim>\<open>ReadLimitBody\<close>.\<close>

definition prepareResponse :: "HostClient \<Rightarrow> Request \<Rightarrow> Response \<Rightarrow> Response" where
  "prepareResponse c req resp =
     (let resp1 = (if \<not> IsGet req \<and> IsHead req then resp\<lparr>SkipBody := True\<rparr> else resp)
      in if DisableHeaderNamesNormalizing c then resp1\<lparr>disableNormalizing := True\<rparr> else resp1)"

text \<open>\<^verbatim>\<open>HostClient.do\<close>, in three stages. The argument \<open>resp\<close> is \<open>None\<close> for a
  nil response; the result is \<^verbatim>\<open>(retry, err)\<close>, the caller's response as the
  call leaves it, and the new state.

  The last stage is the part of \<^verbatim>\<open>do\<close> after the request has been written and
  flushed: the response is acquired when the caller gave none, the read
  deadline is set, the response is read, and the slot is closed or released.\<close>

definition doAfterWrite :: "exchange_io \<Rightarrow> bool \<Rightarrow> Request \<Rightarrow> Response option \<Rightarrow> clientConn
    \<Rightarrow> HostClient \<Rightarrow> (bool \<times> error option) \<times> Response option \<times> HostClient" where
  "doAfterWrite io resetConnection req resp cc c =
     (let nilResp = (resp = None);
          resp1 = (case resp of None \<Rightarrow> fst (AcquireResponse c) | Some r \<Rightarrow> r);
          c1 = (case resp of None \<Rightarrow> snd (AcquireResponse c) | Some r \<Rightarrow> c)
      in if ReadTimeout c1 > 0 \<and> setReadDeadline io \<noteq> None
         then ((True, setReadDeadline io), resp,
               closeConn cc (if nilResp then ReleaseResponse resp1 c1 else c1))
         else
           (let resp2 = prepareResponse c1 req resp1;
                rerr = fst (readResp io resp2);
                resp3 = snd (readResp io resp2);
                c2 = c1\<lparr>now := now c1 + int (readElapsed io)\<rparr>;
                out = (if nilResp then None else Some resp3)
            in if rerr \<noteq> None
               then ((rerr = Some EOF, rerr), out,
                     closeConn cc (if nilResp then ReleaseResponse resp3 c2 else c2))
               else
                 (let c3 = (if resetConnection \<or> reqConnectionClose req
                                 \<or> respConnectionClose resp3
                            then closeConn cc c2 else releaseConn cc c2)
                  in ((False, None), out,
                      if nilResp then ReleaseResponse resp3 c3 else c3))))"

text \<open>The request as \<^verbatim>\<open>do\<close> serializes it: with \<^verbatim>\<open>Connection: close\<close> when the
  connection is to be reset, and with the name of the client as User-Agent
  when the request has none.\<close>

definition requestAsSent :: "env \<Rightarrow> HostClient \<Rightarrow> clientConn \<Rightarrow> Request \<Rightarrow> Request" where
  "requestAsSent e c cc req =
     (let resetConnection = resetConnectionOf c cc req;
          req1 = (if resetConnection then req\<lparr>reqConnectionClose := True\<rparr> else req);
          userAgentOld = userAgent req1
      in if length userAgentOld = 0 then req1\<lparr>userAgent := fst (getClientName e c)\<rparr>
         else req1)"

text \<open>The two statements of \<^verbatim>\<open>do\<close> that undo these changes after the write.\<close>

definition restoreRequest :: "bool \<Rightarrow> string \<Rightarrow> Request \<Rightarrow> Request" where
  "restoreRequest resetConnection userAgentOld req =
     (let req1 = (if length userAgentOld = 0 then req\<lparr>userAgent := userAgentOld\<rparr> else req)
      in if resetConnection then req1\<lparr>reqConnectionClose := False\<rparr> else req1)"

text \<open>The middle stage is the part of \<^verbatim>\<open>do\<close> after the slot \<open>cc\<close> has been
  acquired: the write deadline, the connection-reset policy, the User-Agent,
  the serialization and the flush.\<close>

definition doAfterAcquire :: "env \<Rightarrow> exchange_io \<Rightarrow> Request \<Rightarrow> Response option \<Rightarrow> clientConn
    \<Rightarrow> HostClient \<Rightarrow> (bool \<times> error option) \<times> Response option \<times> HostClient" where
  "doAfterAcquire e io req resp cc c =
     (if WriteTimeout c > 0 \<and> setWriteDeadline io \<noteq> None
      then ((True, setWriteDeadline io), resp, closeConn cc c)
      else
        (let resetConnection = resetConnectionOf c cc req;
             userAgentOld = userAgent req;
             req2 = requestAsSent e c cc req;
             c1 = (if length userAgentOld = 0 then snd (getClientName e c) else c);
             werr = writeReq io req2;
             req4 = restoreRequest resetConnection userAgentOld req2;
             err = (if werr = None then flush io else werr);
             c2 = c1\<lparr>now := now c1 + int (writeElapsed io)\<rparr>
         in if err \<noteq> None then ((True, err), resp, closeConn cc c2)
            else doAfterWrite io resetConnection req4 resp cc c2))"

definition do :: "env \<Rightarrow> Request \<Rightarrow> Response option \<Rightarrow> HostClient
    \<Rightarrow> (bool \<times> error option) \<times> Response option \<times> HostClient" where
  "do e req resp c =
     (let io = exch e (exchanges c);
          c0 = c\<lparr>lastUseTime := (now c div Second - startTimeUnix c) mod 2 ^ 32,
                 exchanges := exchanges c + 1\<rparr>
      in case acquireConn e c0 of
           (Inl err, c1) \<Rightarrow> ((False, Some err), resp, c1)
         | (Inr cc, c1) \<Rightarrow> doAfterAcquire e io req resp cc c1)"

text \<open>What closing and releasing the slot \<open>cc\<close> do to the pool, between a state
  \<open>c\<close> and a later state \<open>c'\<close>; and the response that \<^verbatim>\<open>do\<close> reads in the exchange
  \<open>io\<close>.\<close>

definition slotClosed :: "HostClient \<Rightarrow> clientConn \<Rightarrow> HostClient \<Rightarrow> bool" where
  "slotClosed c cc c' =
     (connsCount c' = i64 (connsCount c - 1) \<and> conns c' = conns c
      \<and> closedConns c' = cc_c cc # closedConns c)"

definition slotReleased :: "HostClient \<Rightarrow> clientConn \<Rightarrow> HostClient \<Rightarrow> bool" where
  "slotReleased c cc c' =
     (connsCount c' = connsCount c \<and> conns c' = conns c @ [cc\<lparr>cc_lastUseTime := now c'\<rparr>]
      \<and> closedConns c' = closedConns c)"

definition responseRead :: "exchange_io \<Rightarrow> HostClient \<Rightarrow> Request \<Rightarrow> Response option
    \<Rightarrow> Response" where
  "responseRead io c req resp =
     snd (readResp io
            (prepareResponse c req (case resp of None \<Rightarrow> emptyResponse | Some r \<Rightarrow> r)))"

text \<open>The response that \<^verbatim>\<open>do\<close> passes to \<^verbatim>\<open>ReadLimitBody\<close> when the caller's
  response is \<open>resp\<close>, and the condition under which \<^verbatim>\<open>do\<close> gets as far as that
  call once it holds the slot \<open>cc\<close>: no failure of the write deadline, of the
  serialization, of the flush or of the read deadline.\<close>

definition responseGiven :: "HostClient \<Rightarrow> Request \<Rightarrow> Response option \<Rightarrow> Response" where
  "responseGiven c req resp =
     prepareResponse c req (case resp of None \<Rightarrow> emptyResponse | Some r \<Rightarrow> r)"

definition readReached :: "env \<Rightarrow> exchange_io \<Rightarrow> Request \<Rightarrow> clientConn \<Rightarrow> HostClient \<Rightarrow> bool" where
  "readReached e io req cc c =
     (\<not> (WriteTimeout c > 0 \<and> setWriteDeadline io \<noteq> None)
      \<and> writeReq io (requestAsSent e c cc req) = None \<and> flush io = None
      \<and> \<not> (ReadTimeout c > 0 \<and> setReadDeadline io \<noteq> None))"

text \<open>The condition under which \<^verbatim>\<open>do\<close> gets as far as acquiring a scratch
  response when the caller gave none: the request has been written and
  flushed. And the condition on a caller's response \<open>r\<close> under which the parser
  treats it as it treats a scratch response: the same error, and the same
  \<^verbatim>\<open>Connection: close\<close> in the response read.\<close>

definition writeDone :: "env \<Rightarrow> exchange_io \<Rightarrow> Request \<Rightarrow> clientConn \<Rightarrow> HostClient \<Rightarrow> bool" where
  "writeDone e io req cc c =
     (\<not> (WriteTimeout c > 0 \<and> setWriteDeadline io \<noteq> None)
      \<and> writeReq io (requestAsSent e c cc req) = None \<and> flush io = None)"

definition parserAgrees :: "exchange_io \<Rightarrow> HostClient \<Rightarrow> Request \<Rightarrow> Response \<Rightarrow> bool" where
  "parserAgrees io c req r =
     (fst (readResp io (responseGiven c req (Some r)))
        = fst (readResp io (responseGiven c req None))
      \<and> respConnectionClose (snd (readResp io (responseGiven c req (Some r))))
        = respConnectionClose (snd (readResp io (responseGiven c req None))))"

text \<open>An exchange, and an environment, in which the parser is only ever shown
  responses with \<open>SkipBody\<close> set: whatever response it is given, it behaves as
  the original parser does on that response with the flag set.\<close>

definition skipBodyParser :: "exchange_io \<Rightarrow> exchange_io" where
  "skipBodyParser io = io\<lparr>readResp := (\<lambda>r. readResp io (r\<lparr>SkipBody := True\<rparr>))\<rparr>"

definition skipBodyEnv :: "env \<Rightarrow> env" where
  "skipBodyEnv e = e\<lparr>exch := (\<lambda>i. skipBodyParser (exch e i))\<rparr>"

text \<open>\<^verbatim>\<open>HostClient.Do\<close>: the retry layer.\<close>

definition Do :: "env \<Rightarrow> Request \<Rightarrow> Response option \<Rightarrow> HostClient
    \<Rightarrow> error option \<times> Response option \<times> HostClient" where
  "Do e req resp c =
     (let ((retry, err), resp1, c1) = do e req resp c;
          (err2, resp2, c2) =
             (if err \<noteq> None \<and> retry \<and> isIdempotent req
              then (let ((retry', err'), resp', c') = do e req resp1 c1 in (err', resp', c'))
              else (err, resp1, c1))
      in (if err2 = Some EOF then Some ErrConnectionClosed else err2, resp2, c2))"

subsection \<open>The deadline harness\<close>

text \<open>A \<^verbatim>\<open>clientDoer\<close> called with a response that is not nil.\<close>

type_synonym 's clientDoer = "Request \<Rightarrow> Response \<Rightarrow> 's \<Rightarrow> error option \<times> Response \<times> 's"

definition hostClientDoer :: "env \<Rightarrow> HostClient clientDoer" where
  "hostClientDoer e req resp c =
     (case Do e req (Some resp) c of
        (err, Some resp', c') \<Rightarrow> (err, resp', c')
      | (err, None, c') \<Rightarrow> (err, resp, c'))"

text \<open>\<^verbatim>\<open>updateSleepTime\<close>; \<open>r\<close> is the value of \<^verbatim>\<open>rand.Intn(40)\<close> and \<open>t\<close> the
  reading of the clock.\<close>

definition updateSleepTime :: "int \<Rightarrow> Duration \<Rightarrow> Time \<Rightarrow> Time \<Rightarrow> Duration" where
  "updateSleepTime r prevTime deadline t =
     (let sleepTime = i64 (prevTime * 2);
          sleepTime1 = (if sleepTime = 0 then i64 ((10 + r) * Millisecond) else sleepTime);
          remainingTime = Sub deadline t
      in if sleepTime1 \<ge> remainingTime
         then (let sleepTime2 = i64 (remainingTime + 10 * Millisecond)
               in if sleepTime2 < 0 then 10 * Millisecond else sleepTime2)
         else sleepTime1)"

text \<open>\<^verbatim>\<open>time.Sleep\<close> returns at once for a duration that is not positive.\<close>

definition Sleep :: "Duration \<Rightarrow> HostClient \<Rightarrow> HostClient" where
  "Sleep d c = (if d \<le> 0 then c else c\<lparr>now := now c + d\<rparr>)"

text \<open>\<^verbatim>\<open>clientDoDeadlineFreeConn\<close>. The background task runs the doer on the
  copies; the \<^verbatim>\<open>select\<close> takes its result when the task finishes before the
  timer fires, and \<^verbatim>\<open>ErrTimeout\<close> otherwise. In the second case the task goes
  on and the state shown is the one it leaves behind; the caller's response is
  untouched and the scratch response is not put back.\<close>

definition clientDoDeadlineFreeConn :: "HostClient clientDoer \<Rightarrow> Request \<Rightarrow> Response \<Rightarrow> Time
    \<Rightarrow> HostClient \<Rightarrow> error option \<times> Response \<times> HostClient" where
  "clientDoDeadlineFreeConn D req resp deadline c =
     (let timeout = i64 (- Sub (now c) deadline)
      in if timeout \<le> 0 then (Some ErrTimeout, resp, c)
         else
           (let (respCopy, c1) = AcquireResponse c;
                (err, respCopy', c2) = D req respCopy c1
            in if now c2 - now c1 < timeout
               then (err, respCopy', ReleaseResponse respCopy' c2)
               else (Some ErrTimeout, resp, c2)))"

text \<open>\<^verbatim>\<open>clientDoDeadline\<close>. The source loops without a bound; the model counts
  the iterations it may still make and yields \<open>None\<close> when they are used up.
  \<open>rnd i\<close> is the random number drawn in iteration \<open>i\<close>.\<close>

fun clientDoDeadlineLoop :: "nat \<Rightarrow> (nat \<Rightarrow> nat) \<Rightarrow> nat \<Rightarrow> HostClient clientDoer \<Rightarrow> Request
    \<Rightarrow> Response \<Rightarrow> Time \<Rightarrow> Duration \<Rightarrow> HostClient
    \<Rightarrow> (error option \<times> Response \<times> HostClient) option" where
  "clientDoDeadlineLoop 0 rnd i D req resp deadline sleepTime c = None"
| "clientDoDeadlineLoop (Suc fuel) rnd i D req resp deadline sleepTime c =
     (case clientDoDeadlineFreeConn D req resp deadline c of
        (err, resp1, c1) \<Rightarrow>
          if err \<noteq> Some ErrNoFreeConns then Some (err, resp1, c1)
          else
            (let sleepTime1 = updateSleepTime (int (rnd i mod 40)) sleepTime deadline (now c1)
             in clientDoDeadlineLoop fuel rnd (i + 1) D req resp1 deadline sleepTime1
                  (Sleep sleepTime1 c1)))"

definition clientDoDeadline :: "nat \<Rightarrow> (nat \<Rightarrow> nat) \<Rightarrow> HostClient clientDoer \<Rightarrow> Request
    \<Rightarrow> Response \<Rightarrow> Time \<Rightarrow> HostClient \<Rightarrow> (error option \<times> Response \<times> HostClient) option" where
  "clientDoDeadline fuel rnd D req resp deadline c =
     clientDoDeadlineLoop fuel rnd 0 D req resp deadline 0 c"

definition clientDoTimeout :: "nat \<Rightarrow> (nat \<Rightarrow> nat) \<Rightarrow> HostClient clientDoer \<Rightarrow> Request
    \<Rightarrow> Response \<Rightarrow> Duration \<Rightarrow> HostClient \<Rightarrow> (error option \<times> Response \<times> HostClient) option" where
  "clientDoTimeout fuel rnd D req resp timeout c =
     clientDoDeadline fuel rnd D req resp (now c + timeout) c"

text \<open>\<^verbatim>\<open>HostClient.DoDeadline\<close> and \<^verbatim>\<open>HostClient.DoTimeout\<close>.\<close>

definition DoDeadline :: "nat \<Rightarrow> (nat \<Rightarrow> nat) \<Rightarrow> env \<Rightarrow> Request \<Rightarrow> Response \<Rightarrow> Time
    \<Rightarrow> HostClient \<Rightarrow> (error option \<times> Response \<times> HostClient) option" where
  "DoDeadline fuel rnd e req resp deadline c =
     clientDoDeadline fuel rnd (hostClientDoer e) req resp deadline c"

definition DoTimeout :: "nat \<Rightarrow> (nat \<Rightarrow> nat) \<Rightarrow> env \<Rightarrow> Request \<Rightarrow> Response \<Rightarrow> Duration
    \<Rightarrow> HostClient \<Rightarrow> (error option \<times> Response \<times> HostClient) option" where
  "DoTimeout fuel rnd e req resp timeout c =
     clientDoTimeout fuel rnd (hostClientDoer e) req resp timeout c"

subsection \<open>The redirect follower\<close>

definition maxRedirectsCount :: int where
  "maxRedirectsCount = 16"

text \<open>Modelled from the spec: the status codes 301, 302 and 303 and the name of
  the Location header, which are declared outside \<^verbatim>\<open>client.go\<close>.\<close>

definition StatusMovedPermanently :: int where
  "StatusMovedPermanently = 301"

definition StatusFound :: int where
  "StatusFound = 302"

definition StatusSeeOther :: int where
  "StatusSeeOther = 303"

definition strLocation :: string where
  "strLocation = ''Location''"

text \<open>The loop of \<^verbatim>\<open>doRequestFollowRedirects\<close>, over any doer and its state.
  \<open>getRedirectURL\<close> is the resolution of a location against the current URL by
  the URI component. The result is \<^verbatim>\<open>(statusCode, err)\<close> with the request, the
  response and the state at the exit of the loop.\<close>

function followLoop :: "'s clientDoer \<Rightarrow> (string \<Rightarrow> string \<Rightarrow> string) \<Rightarrow> Request \<Rightarrow> Response
    \<Rightarrow> string \<Rightarrow> int \<Rightarrow> int \<Rightarrow> 's \<Rightarrow> (int \<times> error option) \<times> Request \<times> Response \<times> 's" where
  "followLoop D getRedirectURL req resp url redirectsCount statusCode s =
     (let req1 = req\<lparr>parsedURI := False, reqHost := [], RequestURI := url\<rparr>;
          r = D req1 resp s;
          err = fst r; resp1 = fst (snd r); s1 = snd (snd r)
      in if err \<noteq> None then ((statusCode, err), req1, resp1, s1)
         else
           (let statusCode1 = StatusCode resp1
            in if statusCode1 \<noteq> StatusMovedPermanently \<and> statusCode1 \<noteq> StatusFound
                  \<and> statusCode1 \<noteq> StatusSeeOther
               then ((statusCode1, None), req1, resp1, s1)
               else
                 (let redirectsCount1 = redirectsCount + 1
                  in if redirectsCount1 > maxRedirectsCount
                     then ((statusCode1, Some errTooManyRedirects), req1, resp1, s1)
                     else
                       (let location = peek resp1 strLocation
                        in if length location = 0
                           then ((statusCode1, Some errMissingLocation), req1, resp1, s1)
                           else followLoop D getRedirectURL req1 resp1
                                  (getRedirectURL url location) redirectsCount1 statusCode1 s1))))"
  by pat_completeness auto
termination
  by (relation "measure (\<lambda>(D, g, req, resp, url, redirectsCount, statusCode, s).
                  nat (maxRedirectsCount + 1 - redirectsCount))") auto

declare followLoop.simps [simp del]

text \<open>\<^verbatim>\<open>doRequestFollowRedirects\<close>: the scratch response takes \<open>dst\<close> as its body
  buffer; the result is \<^verbatim>\<open>(statusCode, body, err)\<close>.\<close>

definition doRequestFollowRedirects :: "'s clientDoer \<Rightarrow> (string \<Rightarrow> string \<Rightarrow> string) \<Rightarrow> Request
    \<Rightarrow> string \<Rightarrow> string \<Rightarrow> 's \<Rightarrow> (int \<times> string \<times> error option) \<times> Request \<times> 's" where
  "doRequestFollowRedirects D getRedirectURL req dst url s =
     (case followLoop D getRedirectURL req (emptyResponse\<lparr>body := dst\<rparr>) url 0 0 s of
        ((statusCode, err), req', resp', s') \<Rightarrow> ((statusCode, body resp', err), req', s'))"

text \<open>A reply that the follower takes for a redirect to follow: one of the
  three statuses, with a Location that is not empty.\<close>

definition redirectReply :: "Response \<Rightarrow> bool" where
  "redirectReply r =
     (StatusCode r \<in> {301, 302, 303} \<and> peek r strLocation \<noteq> [])"

text \<open>A doer that plays a fixed sequence of replies, one for each call, and
  fails once the sequence is used up.\<close>

fun scriptedDoer :: "((error option \<times> Response) list) clientDoer" where
  "scriptedDoer req resp [] = (Some (OtherError ''no reply''), resp, [])"
| "scriptedDoer req resp ((err, r) # rs) = (err, r, rs)"

subsection \<open>A concrete client and environment\<close>

definition exampleClient :: HostClient where
  "exampleClient = \<lparr>Addr = ''a,b'', Name = [], customDial = False, IsTLS = False,
     MaxConns = 1, MaxConnDuration = 0, ReadTimeout = 0, WriteTimeout = 0,
     DisableHeaderNamesNormalizing = False, clientName = None, lastUseTime = 0,
     connsCount = 0, conns = [], cleanerStarted = 0, addrs = [], addrIdx = 0, now = 0,
     startTimeUnix = 0, closedConns = [], responsePool = 0, dialsMade = 0, exchanges = 0\<rparr>"

definition okExchange :: exchange_io where
  "okExchange = \<lparr>setWriteDeadline = None, writeReq = (\<lambda>req. None), flush = None,
     writeElapsed = 10, setReadDeadline = None,
     readResp = (\<lambda>resp. (None, resp\<lparr>StatusCode := 200\<rparr>)), readElapsed = 20\<rparr>"

definition exampleEnv :: env where
  "exampleEnv = \<lparr>dial = (\<lambda>i addr. (1000, Inr i)), exch = (\<lambda>i. okExchange),
     DefaultDialTimeout = 3 * Second, defaultUserAgent = ''fasthttp''\<rparr>"

definition getRequest :: Request where
  "getRequest = \<lparr>Method = ''GET'', RequestURI = ''/'', reqHost = ''a'', parsedURI = False,
     reqConnectionClose = False, userAgent = [], reqBody = []\<rparr>"

definition postRequest :: Request where
  "postRequest = getRequest\<lparr>Method := ''POST''\<rparr>"

definition headRequest :: Request where
  "headRequest = getRequest\<lparr>Method := ''HEAD''\<rparr>"

text \<open>An exchange in which the server closes the connection before the first
  byte of the response, and an environment in which that happens to the first
  exchange only.\<close>

definition eofExchange :: exchange_io where
  "eofExchange = okExchange\<lparr>readResp := (\<lambda>resp. (Some EOF, resp))\<rparr>"

definition flakyEnv :: env where
  "flakyEnv = exampleEnv\<lparr>exch := (\<lambda>i. if i = 0 then eofExchange else okExchange)\<rparr>"

text \<open>An environment in which every dial fails after two seconds.\<close>

definition failEnv :: env where
  "failEnv = exampleEnv\<lparr>dial := (\<lambda>i addr. (2000000000, Inl (OtherError ''refused'')))\<rparr>"

text \<open>A resolution of redirect URLs for servers that send absolute Locations.\<close>

definition absoluteLocation :: "string \<Rightarrow> string \<Rightarrow> string" where
  "absoluteLocation baseURL location = location"

text \<open>Replies of a server: a redirect with a Location, a redirect without one,
  a final answer, and a 307.\<close>

definition redirect302 :: Response where
  "redirect302 = emptyResponse\<lparr>StatusCode := 302, respHeaders := [(''Location'', ''/next'')]\<rparr>"

definition redirectNoLocation :: Response where
  "redirectNoLocation = emptyResponse\<lparr>StatusCode := 302\<rparr>"

definition okResponse :: Response where
  "okResponse = emptyResponse\<lparr>StatusCode := 200, body := ''OK''\<rparr>"

definition temporaryRedirect307 :: Response where
  "temporaryRedirect307 =
     emptyResponse\<lparr>StatusCode := 307, respHeaders := [(''Location'', ''/next'')]\<rparr>"

text \<open>Modelled from the spec: \<^verbatim>\<open>Response.ReadLimitBody\<close>, which is not in
  \<^verbatim>\<open>client.go\<close>, reads no body into a response that has \<open>SkipBody\<close> set, and
  bounds the body it reads by \<^verbatim>\<open>MaxResponseBodySize\<close>. An exchange in which the
  server sends a body above that bound: the read fails unless the body is
  skipped. And a response that a caller has used before.\<close>

definition bodyTooLargeExchange :: exchange_io where
  "bodyTooLargeExchange = okExchange\<lparr>readResp :=
     (\<lambda>resp. if SkipBody resp then (None, resp\<lparr>StatusCode := 200\<rparr>)
             else (Some (OtherError ''body size exceeds the given limit''), resp))\<rparr>"

definition bodyTooLargeEnv :: env where
  "bodyTooLargeEnv = exampleEnv\<lparr>exch := (\<lambda>i. bodyTooLargeExchange)\<rparr>"

definition staleResponse :: Response where
  "staleResponse = emptyResponse\<lparr>StatusCode := 404, body := ''not found''\<rparr>"

section \<open>Properties\<close>

subsection \<open>The connection cap\<close>

lemma nextAddr_keeps:
  "connsCount (snd (nextAddr c)) = connsCount c \<and> MaxConns (snd (nextAddr c)) = MaxConns c
   \<and> conns (snd (nextAddr c)) = conns c \<and> exchanges (snd (nextAddr c)) = exchanges c"
  by (simp add: nextAddr_def Let_def)

lemma dialHost_keeps:
  "connsCount (snd (dialHost e c)) = connsCount c \<and> MaxConns (snd (dialHost e c)) = MaxConns c
   \<and> conns (snd (dialHost e c)) = conns c \<and> exchanges (snd (dialHost e c)) = exchanges c"
  using nextAddr_keeps [of c]
  by (auto simp: dialHost_def Let_def split: prod.splits sum.splits)

lemma dialLoop_keeps:
  "connsCount (snd (dialLoop e dl n err c)) = connsCount c
   \<and> MaxConns (snd (dialLoop e dl n err c)) = MaxConns c
   \<and> conns (snd (dialLoop e dl n err c)) = conns c
   \<and> exchanges (snd (dialLoop e dl n err c)) = exchanges c"
proof (induction n arbitrary: err c)
  case 0
  then show ?case by simp
next
  case (Suc n)
  obtain r c1 where h: "dialHost e c = (r, c1)" by (cases "dialHost e c")
  have k: "connsCount c1 = connsCount c \<and> MaxConns c1 = MaxConns c \<and> conns c1 = conns c
           \<and> exchanges c1 = exchanges c"
    using dialHost_keeps [of e c] h by simp
  show ?case using h k Suc.IH
    by (auto split: prod.splits option.splits)
qed

lemma dialHostHard_keeps:
  "connsCount (snd (dialHostHard e c)) = connsCount c
   \<and> MaxConns (snd (dialHostHard e c)) = MaxConns c
   \<and> conns (snd (dialHostHard e c)) = conns c
   \<and> exchanges (snd (dialHostHard e c)) = exchanges c"
  by (simp add: dialHostHard_def Let_def dialLoop_keeps)

lemma acquireConn_MaxConns: "MaxConns (snd (acquireConn e c)) = MaxConns c"
  using dialHostHard_keeps [of e "c\<lparr>connsCount := i64 (connsCount c + 1)\<rparr>"]
  by (auto simp: acquireConn_def Let_def decConnsCount_def split: prod.splits option.splits)

lemma i64_id: "minInt \<le> x \<Longrightarrow> x \<le> maxInt \<Longrightarrow> i64 x = x"
  by (simp add: i64_def minInt_def maxInt_def)

text \<open>\<open>acquireConn\<close> never lowers \<open>connsCount\<close> and never takes it over the cap.\<close>

lemma acquireConn_connsCount:
  assumes "minInt \<le> connsCount c" "connsCount c \<le> maxConnsOf c" "maxConnsOf c \<le> maxInt"
  shows "connsCount c \<le> connsCount (snd (acquireConn e c))
         \<and> connsCount (snd (acquireConn e c)) \<le> maxConnsOf c"
proof (cases "length (conns c) = 0 \<and> connsCount c < maxConnsOf c")
  case False
  with assms show ?thesis by (auto simp: acquireConn_def)
next
  case True
  let ?c1 = "c\<lparr>connsCount := i64 (connsCount c + 1)\<rparr>"
  have up: "i64 (connsCount c + 1) = connsCount c + 1"
    using assms True by (intro i64_id) simp_all
  have down: "i64 (connsCount c + 1 - 1) = connsCount c"
    using assms by (simp add: i64_id)
  have k: "connsCount (snd (dialHostHard e ?c1)) = connsCount c + 1"
    using dialHostHard_keeps [of e ?c1] up by simp
  obtain conn err c2 where d: "dialHostHard e ?c1 = ((conn, err), c2)"
    by (cases "dialHostHard e ?c1") auto
  with k have k2: "connsCount c2 = connsCount c + 1" by simp
  show ?thesis
  proof (cases err)
    case (Some x)
    with True d k2 down show ?thesis
      by (cases conn) (simp_all add: acquireConn_def Let_def decConnsCount_def)
  next
    case None
    with True d k2 show ?thesis
      by (cases conn) (simp_all add: acquireConn_def Let_def)
  qed
qed

lemma applyOp_cap:
  assumes "minInt + 1 \<le> connsCount c" "connsCount c \<le> maxConnsOf c" "maxConnsOf c \<le> maxInt"
  shows "connsCount c - 1 \<le> connsCount (applyOp e x c)
         \<and> connsCount (applyOp e x c) \<le> maxConnsOf c
         \<and> maxConnsOf (applyOp e x c) = maxConnsOf c"
proof (cases x)
  case AcquireConn
  have "minInt \<le> connsCount c" using assms by simp
  from acquireConn_connsCount [OF this assms(2,3), of e] acquireConn_MaxConns [of e c]
  show ?thesis using AcquireConn by (simp add: maxConnsOf_def)
next
  case (ReleaseConn cc)
  with assms show ?thesis by (simp add: releaseConn_def maxConnsOf_def)
next
  case (CloseConn cc)
  have "i64 (connsCount c - 1) = connsCount c - 1"
    using assms by (intro i64_id) simp_all
  with assms CloseConn show ?thesis
    by (simp add: closeConn_def decConnsCount_def maxConnsOf_def)
qed

lemma runOps_cap:
  "minInt + int (length ops) \<le> connsCount c \<Longrightarrow> connsCount c \<le> maxConnsOf c
   \<Longrightarrow> maxConnsOf c \<le> maxInt \<Longrightarrow>
   connsCount (runOps e ops c) \<le> maxConnsOf c \<and> maxConnsOf (runOps e ops c) = maxConnsOf c"
proof (induction ops arbitrary: c)
  case Nil
  then show ?case by simp
next
  case (Cons x xs)
  have l: "minInt + 1 \<le> connsCount c" using Cons.prems(1) by simp
  from applyOp_cap [OF l Cons.prems(2,3), of e x]
  have a: "connsCount c - 1 \<le> connsCount (applyOp e x c)"
    and b: "connsCount (applyOp e x c) \<le> maxConnsOf c"
    and m: "maxConnsOf (applyOp e x c) = maxConnsOf c" by simp_all
  have "minInt + int (length xs) \<le> connsCount (applyOp e x c)"
    using a Cons.prems(1) by simp
  from Cons.IH [OF this] b m Cons.prems(3) show ?case by simp
qed

lemma acquireConn_saturated:
  "conns c = [] \<Longrightarrow> maxConnsOf c \<le> connsCount c \<Longrightarrow> acquireConn e c = (Inl ErrNoFreeConns, c)"
  by (simp add: acquireConn_def)

text \<open>
  Claim C1. The cap of the pool is \<open>MaxConns\<close>, or 512 when \<open>MaxConns\<close> is not
  positive; it is a Go \<^verbatim>\<open>int\<close>, so at most \<open>maxInt\<close>. Take a state in which
  \<open>connsCount\<close> is within the cap, and a sequence of \<open>acquireConn\<close>, \<open>releaseConn\<close>
  and \<open>closeConn\<close> operations that is not long enough to take \<open>connsCount\<close> down
  to the least \<^verbatim>\<open>int\<close>, where the unguarded decrement wraps around (from a new
  client, with \<open>connsCount = 0\<close>, that is every sequence of at most \<open>2 ^ 63\<close>
  operations). Then, whatever the dialer does, \<open>connsCount\<close> is within the cap
  after the sequence and after each of its prefixes. An \<open>acquireConn\<close> that
  finds the idle list empty and \<open>connsCount\<close> at the cap (or above) returns
  \<open>ErrNoFreeConns\<close> and leaves the whole state as it was: no dial is made and
  the clock does not move.
\<close>

theorem pool_never_exceeds_cap:
  "maxConnsOf c = (if MaxConns c \<le> 0 then 512 else MaxConns c)
   \<and> (minInt + int (length ops) \<le> connsCount c \<and> connsCount c \<le> maxConnsOf c
        \<and> maxConnsOf c \<le> maxInt \<longrightarrow>
        (\<forall>n. connsCount (runOps e (take n ops) c) \<le> maxConnsOf (runOps e (take n ops) c)
             \<and> maxConnsOf (runOps e (take n ops) c) = maxConnsOf c)
        \<and> connsCount (runOps e ops c) \<le> maxConnsOf (runOps e ops c)
        \<and> maxConnsOf (runOps e ops c) = maxConnsOf c)
   \<and> (conns c = [] \<and> maxConnsOf c \<le> connsCount c \<longrightarrow>
        acquireConn e c = (Inl ErrNoFreeConns, c))"
proof (intro conjI impI allI)
  show "maxConnsOf c = (if MaxConns c \<le> 0 then 512 else MaxConns c)"
    by (simp add: maxConnsOf_def DefaultMaxConnsPerHost_def)
next
  fix n
  assume h: "minInt + int (length ops) \<le> connsCount c \<and> connsCount c \<le> maxConnsOf c
        \<and> maxConnsOf c \<le> maxInt"
  have "int (length (take n ops)) \<le> int (length ops)" by simp
  with h have "minInt + int (length (take n ops)) \<le> connsCount c" by linarith
  from runOps_cap [OF this, of e] h
  show "connsCount (runOps e (take n ops) c) \<le> maxConnsOf (runOps e (take n ops) c)"
    and "maxConnsOf (runOps e (take n ops) c) = maxConnsOf c" by simp_all
next
  assume h: "minInt + int (length ops) \<le> connsCount c \<and> connsCount c \<le> maxConnsOf c
        \<and> maxConnsOf c \<le> maxInt"
  with runOps_cap [of ops c e]
  show "connsCount (runOps e ops c) \<le> maxConnsOf (runOps e ops c)"
    and "maxConnsOf (runOps e ops c) = maxConnsOf c" by simp_all
next
  assume "conns c = [] \<and> maxConnsOf c \<le> connsCount c"
  then show "acquireConn e c = (Inl ErrNoFreeConns, c)"
    by (simp add: acquireConn_saturated)
qed

theorem pool_never_exceeds_cap_witness:
  "minInt + int (length [AcquireConn,
         CloseConn \<lparr>cc_c = 0, createdTime = 0, cc_lastUseTime = 0\<rparr>, AcquireConn])
     \<le> connsCount (exampleClient\<lparr>connsCount := 1\<rparr>)
   \<and> connsCount (exampleClient\<lparr>connsCount := 1\<rparr>) \<le> maxConnsOf (exampleClient\<lparr>connsCount := 1\<rparr>)
   \<and> maxConnsOf (exampleClient\<lparr>connsCount := 1\<rparr>) \<le> maxInt
   \<and> conns (exampleClient\<lparr>connsCount := 1\<rparr>) = []
   \<and> maxConnsOf (exampleClient\<lparr>connsCount := 1\<rparr>) \<le> connsCount (exampleClient\<lparr>connsCount := 1\<rparr>)
   \<and> connsCount (runOps exampleEnv
         [AcquireConn, CloseConn \<lparr>cc_c = 0, createdTime = 0, cc_lastUseTime = 0\<rparr>, AcquireConn]
         (exampleClient\<lparr>connsCount := 1\<rparr>))
       \<le> maxConnsOf (runOps exampleEnv
         [AcquireConn, CloseConn \<lparr>cc_c = 0, createdTime = 0, cc_lastUseTime = 0\<rparr>, AcquireConn]
         (exampleClient\<lparr>connsCount := 1\<rparr>))
   \<and> acquireConn exampleEnv (exampleClient\<lparr>connsCount := 1\<rparr>)
       = (Inl ErrNoFreeConns, exampleClient\<lparr>connsCount := 1\<rparr>)"
proof -
  have m: "maxConnsOf (exampleClient\<lparr>connsCount := 1\<rparr>) = 1"
    by (simp add: maxConnsOf_def exampleClient_def)
  have c1: "connsCount (exampleClient\<lparr>connsCount := 1\<rparr>) = 1"
    by simp
  have h0: "minInt + int (length [AcquireConn,
         CloseConn \<lparr>cc_c = 0, createdTime = 0, cc_lastUseTime = 0\<rparr>, AcquireConn])
     \<le> connsCount (exampleClient\<lparr>connsCount := 1\<rparr>)"
    by (simp add: minInt_def)
  have h1: "connsCount (exampleClient\<lparr>connsCount := 1\<rparr>)
              \<le> maxConnsOf (exampleClient\<lparr>connsCount := 1\<rparr>)"
    by (simp add: m)
  have h1': "maxConnsOf (exampleClient\<lparr>connsCount := 1\<rparr>) \<le> maxInt"
    by (simp add: m maxInt_def)
  have h2: "conns (exampleClient\<lparr>connsCount := 1\<rparr>) = []"
    by (simp add: exampleClient_def)
  have h3: "maxConnsOf (exampleClient\<lparr>connsCount := 1\<rparr>)
              \<le> connsCount (exampleClient\<lparr>connsCount := 1\<rparr>)"
    by (simp add: m)
  show ?thesis
    using h0 h1 h1' h2 h3
      pool_never_exceeds_cap [of "exampleClient\<lparr>connsCount := 1\<rparr>" ops e for ops e,
        of "[AcquireConn, CloseConn \<lparr>cc_c = 0, createdTime = 0, cc_lastUseTime = 0\<rparr>, AcquireConn]"
        exampleEnv]
    by blast
qed

subsection \<open>The retry layer\<close>

lemma acquireConn_exchanges: "exchanges (snd (acquireConn e c)) = exchanges c"
  using dialHostHard_keeps [of e "c\<lparr>connsCount := i64 (connsCount c + 1)\<rparr>"]
  by (auto simp: acquireConn_def Let_def decConnsCount_def split: prod.splits option.splits)

lemma closeConn_exchanges: "exchanges (closeConn cc c) = exchanges c"
  by (simp add: closeConn_def decConnsCount_def)

lemma releaseConn_exchanges: "exchanges (releaseConn cc c) = exchanges c"
  by (simp add: releaseConn_def)

lemma ReleaseResponse_exchanges: "exchanges (ReleaseResponse r c) = exchanges c"
  by (simp add: ReleaseResponse_def)

lemma getClientName_exchanges: "exchanges (snd (getClientName e c)) = exchanges c"
  by (simp add: getClientName_def Let_def split: option.splits)

lemma doAfterWrite_exchanges:
  "exchanges (snd (snd (doAfterWrite io rc req resp cc c))) = exchanges c"
proof (cases resp)
  case None
  then show ?thesis
    by (simp add: doAfterWrite_def Let_def AcquireResponse_def closeConn_exchanges
        releaseConn_exchanges ReleaseResponse_exchanges split: prod.splits)
next
  case (Some r)
  then show ?thesis
    by (simp add: doAfterWrite_def Let_def closeConn_exchanges
        releaseConn_exchanges ReleaseResponse_exchanges split: prod.splits)
qed

lemma doAfterAcquire_exchanges:
  "exchanges (snd (snd (doAfterAcquire e io req resp cc c))) = exchanges c"
  by (simp add: doAfterAcquire_def Let_def closeConn_exchanges doAfterWrite_exchanges
      getClientName_exchanges)

text \<open>Every call of \<open>do\<close> begins exactly one exchange.\<close>

lemma do_exchanges: "exchanges (snd (snd (do e req resp c))) = exchanges c + 1"
proof -
  let ?c0 = "c\<lparr>lastUseTime := (now c div Second - startTimeUnix c) mod 2 ^ 32,
                 exchanges := exchanges c + 1\<rparr>"
  have a: "exchanges (snd (acquireConn e ?c0)) = exchanges c + 1"
    by (simp add: acquireConn_exchanges)
  show ?thesis
  proof (cases "acquireConn e ?c0")
    case (Pair r c1)
    with a have b: "exchanges c1 = exchanges c + 1" by simp
    show ?thesis
    proof (cases r)
      case (Inl err)
      with Pair b show ?thesis by (simp add: do_def Let_def)
    next
      case (Inr cc)
      with Pair b show ?thesis by (simp add: do_def Let_def doAfterAcquire_exchanges)
    qed
  qed
qed

lemma isIdempotent_iff: "isIdempotent req \<longleftrightarrow> Method req \<in> {''GET'', ''HEAD'', ''PUT''}"
  by (auto simp: isIdempotent_def IsGet_def IsHead_def IsPut_def)

lemma Do_unfold:
  "Do e req resp c =
     (let first = do e req resp c;
          again = (snd (fst first) \<noteq> None \<and> fst (fst first) \<and> isIdempotent req);
          second = do e req (fst (snd first)) (snd (snd first));
          err2 = (if again then snd (fst second) else snd (fst first))
      in (if err2 = Some EOF then Some ErrConnectionClosed else err2,
          if again then snd second else snd first))"
  by (auto simp: Do_def Let_def split: prod.splits)

lemmas eval_defs = do_def doAfterAcquire_def doAfterWrite_def Let_def flakyEnv_def
  exampleEnv_def eofExchange_def okExchange_def exampleClient_def getRequest_def
  requestAsSent_def restoreRequest_def
  postRequest_def headRequest_def acquireConn_def maxConnsOf_def dialHostHard_def
  dialHost_def nextAddr_def dialTimeout_def i64_def Sub_def minDuration_def maxDuration_def
  Second_def addMissingPort_def resetConnectionOf_def getClientName_def AcquireResponse_def
  ReleaseResponse_def closeConn_def releaseConn_def decConnsCount_def prepareResponse_def
  IsGet_def IsHead_def IsPut_def emptyResponse_def

lemma example_facts:
  "Method getRequest = ''GET''" "Method postRequest = ''POST''" "Method headRequest = ''HEAD''"
  "exchanges exampleClient = 0"
  by (simp_all add: getRequest_def postRequest_def headRequest_def exampleClient_def)

lemma do_flaky_get: "fst (do flakyEnv getRequest None exampleClient) = (True, Some EOF)"
  by (simp add: eval_defs)

lemma do_flaky_post: "fst (do flakyEnv postRequest None exampleClient) = (True, Some EOF)"
  by (simp add: eval_defs)

lemma do_flaky_get_again:
  "fst (do flakyEnv getRequest (fst (snd (do flakyEnv getRequest None exampleClient)))
          (snd (snd (do flakyEnv getRequest None exampleClient)))) = (False, None)"
  by (simp add: eval_defs)

text \<open>
  Claim C2. \<open>Do\<close> runs \<open>do\<close> once, and a second time exactly when the first
  attempt returned an error with the retry flag set and the method of the
  request is GET, HEAD or PUT. In that case the outcome is that of the second
  attempt, made on the state the first one left, and two exchanges have been
  begun; in every other case (any other method, such as POST, no error, or an
  error that is not retryable) the outcome is that of the first attempt and one
  exchange has been begun. There is no third attempt.
\<close>

theorem Do_retries_at_most_once:
  "exchanges (snd (snd (Do e req resp c)))
     = exchanges c
       + (if snd (fst (do e req resp c)) \<noteq> None \<and> fst (fst (do e req resp c))
             \<and> Method req \<in> {''GET'', ''HEAD'', ''PUT''} then 2 else 1)
   \<and> snd (Do e req resp c)
     = (if snd (fst (do e req resp c)) \<noteq> None \<and> fst (fst (do e req resp c))
           \<and> Method req \<in> {''GET'', ''HEAD'', ''PUT''}
        then snd (do e req (fst (snd (do e req resp c))) (snd (snd (do e req resp c))))
        else snd (do e req resp c))"
  using do_exchanges [of e req resp c]
    do_exchanges [of e req "fst (snd (do e req resp c))" "snd (snd (do e req resp c))"]
  by (simp add: Do_unfold Let_def isIdempotent_iff)

theorem Do_retries_at_most_once_witness:
  "exchanges (snd (snd (Do flakyEnv getRequest None exampleClient))) = 2
   \<and> exchanges (snd (snd (Do flakyEnv postRequest None exampleClient))) = 1"
  using Do_retries_at_most_once [of flakyEnv getRequest None exampleClient, THEN conjunct1]
    Do_retries_at_most_once [of flakyEnv postRequest None exampleClient, THEN conjunct1]
    do_flaky_get do_flaky_post
  by (simp add: example_facts)

text \<open>
  Claim C7. The error of the last attempt that \<open>Do\<close> makes (the second attempt
  when the first is retried, the first otherwise, as for every method that is
  not idempotent) is what \<open>Do\<close> returns, except that the end-of-stream error is
  replaced by \<open>ErrConnectionClosed\<close>. So \<open>Do\<close> never returns the raw
  end-of-stream error.
\<close>

theorem Do_surfaces_ErrConnectionClosed:
  "(let first = do e req resp c;
        again = (snd (fst first) \<noteq> None \<and> fst (fst first) \<and> isIdempotent req);
        lastErr = (if again then snd (fst (do e req (fst (snd first)) (snd (snd first))))
                   else snd (fst first))
    in fst (Do e req resp c)
         = (if lastErr = Some EOF then Some ErrConnectionClosed else lastErr))
   \<and> fst (Do e req resp c) \<noteq> Some EOF"
  by (simp add: Do_unfold Let_def)

theorem Do_surfaces_ErrConnectionClosed_witness:
  "fst (Do flakyEnv postRequest None exampleClient) = Some ErrConnectionClosed
   \<and> fst (Do flakyEnv getRequest None exampleClient) = None"
  using Do_surfaces_ErrConnectionClosed [of flakyEnv postRequest None exampleClient]
    Do_surfaces_ErrConnectionClosed [of flakyEnv getRequest None exampleClient]
    do_flaky_get do_flaky_post do_flaky_get_again
  by (simp add: Let_def isIdempotent_iff example_facts)

subsection \<open>The disposition of the connection\<close>

lemma doAfterWrite_disposition:
  "(let res = doAfterWrite io rc req resp cc c; err = snd (fst res); c' = snd (snd res)
    in if err \<noteq> None then slotClosed c cc c'
       else if rc \<or> reqConnectionClose req \<or> respConnectionClose (responseRead io c req resp)
            then slotClosed c cc c' else slotReleased c cc c')"
proof (cases resp)
  case None
  have p: "prepareResponse (c\<lparr>responsePool := responsePool c - Suc 0\<rparr>) req emptyResponse
           = prepareResponse c req emptyResponse"
    by (simp add: prepareResponse_def)
  show ?thesis using None
    by (simp add: doAfterWrite_def Let_def AcquireResponse_def ReleaseResponse_def closeConn_def
        decConnsCount_def releaseConn_def slotClosed_def slotReleased_def responseRead_def p)
next
  case (Some r)
  then show ?thesis
    by (simp add: doAfterWrite_def Let_def ReleaseResponse_def closeConn_def
        decConnsCount_def releaseConn_def slotClosed_def slotReleased_def responseRead_def)
qed

lemma restore_sent:
  "restoreRequest (resetConnectionOf c cc req) (userAgent req) (requestAsSent e c cc req) = req"
  by (cases req) (simp add: restoreRequest_def requestAsSent_def Let_def resetConnectionOf_def)

lemma getClientName_pool:
  "connsCount (snd (getClientName e c)) = connsCount c \<and> conns (snd (getClientName e c)) = conns c
   \<and> closedConns (snd (getClientName e c)) = closedConns c
   \<and> DisableHeaderNamesNormalizing (snd (getClientName e c)) = DisableHeaderNamesNormalizing c"
  by (simp add: getClientName_def Let_def split: option.splits)

lemma slotClosed_frame:
  "connsCount c2 = connsCount c \<Longrightarrow> conns c2 = conns c \<Longrightarrow> closedConns c2 = closedConns c
   \<Longrightarrow> slotClosed c2 cc c' = slotClosed c cc c'"
  by (simp add: slotClosed_def)

lemma slotReleased_frame:
  "connsCount c2 = connsCount c \<Longrightarrow> conns c2 = conns c \<Longrightarrow> closedConns c2 = closedConns c
   \<Longrightarrow> slotReleased c2 cc c' = slotReleased c cc c'"
  by (simp add: slotReleased_def)

lemma responseRead_frame:
  "DisableHeaderNamesNormalizing c2 = DisableHeaderNamesNormalizing c
   \<Longrightarrow> responseRead io c2 req resp = responseRead io c req resp"
  by (simp add: responseRead_def prepareResponse_def)

lemma slotClosed_closeConn:
  "connsCount c2 = connsCount c \<Longrightarrow> conns c2 = conns c \<Longrightarrow> closedConns c2 = closedConns c
   \<Longrightarrow> slotClosed c cc (closeConn cc c2)"
  by (simp add: slotClosed_def closeConn_def decConnsCount_def)

lemma doAfterAcquire_unfold:
  "doAfterAcquire e io req resp cc c =
     (let c1 = (if length (userAgent req) = 0 then snd (getClientName e c) else c);
          c2 = c1\<lparr>now := now c1 + int (writeElapsed io)\<rparr>;
          werr = writeReq io (requestAsSent e c cc req);
          err = (if werr = None then flush io else werr)
      in if WriteTimeout c > 0 \<and> setWriteDeadline io \<noteq> None
         then ((True, setWriteDeadline io), resp, closeConn cc c)
         else if err \<noteq> None then ((True, err), resp, closeConn cc c2)
         else doAfterWrite io (resetConnectionOf c cc req) req resp cc c2)"
  by (auto simp: doAfterAcquire_def Let_def restore_sent)

lemma doAfterAcquire_disposition:
  "(let res = doAfterAcquire e io req resp cc c; err = snd (fst res); c' = snd (snd res)
    in if err \<noteq> None then slotClosed c cc c'
       else if resetConnectionOf c cc req \<or> reqConnectionClose req
               \<or> respConnectionClose (responseRead io c req resp)
            then slotClosed c cc c' else slotReleased c cc c')"
proof -
  define c1 where "c1 = (if length (userAgent req) = 0 then snd (getClientName e c) else c)"
  define c2 where "c2 = c1\<lparr>now := now c1 + int (writeElapsed io)\<rparr>"
  define werr where "werr = writeReq io (requestAsSent e c cc req)"
  define err where "err = (if werr = None then flush io else werr)"
  have f: "connsCount c2 = connsCount c" "conns c2 = conns c" "closedConns c2 = closedConns c"
    "DisableHeaderNamesNormalizing c2 = DisableHeaderNamesNormalizing c"
    using getClientName_pool [of e c] by (simp_all add: c2_def c1_def)
  have u: "doAfterAcquire e io req resp cc c =
      (if WriteTimeout c > 0 \<and> setWriteDeadline io \<noteq> None
       then ((True, setWriteDeadline io), resp, closeConn cc c)
       else if err \<noteq> None then ((True, err), resp, closeConn cc c2)
       else doAfterWrite io (resetConnectionOf c cc req) req resp cc c2)"
    by (auto simp: doAfterAcquire_unfold Let_def c1_def c2_def werr_def err_def)
  consider (a) "WriteTimeout c > 0 \<and> setWriteDeadline io \<noteq> None"
    | (b) "\<not> (WriteTimeout c > 0 \<and> setWriteDeadline io \<noteq> None)" "err \<noteq> None"
    | (c) "\<not> (WriteTimeout c > 0 \<and> setWriteDeadline io \<noteq> None)" "err = None"
    by blast
  then show ?thesis
  proof cases
    case a
    have "slotClosed c cc (closeConn cc c)"
      by (simp add: slotClosed_def closeConn_def decConnsCount_def)
    moreover from a u have "doAfterAcquire e io req resp cc c
        = ((True, setWriteDeadline io), resp, closeConn cc c)" by simp
    ultimately show ?thesis using a by (auto simp: Let_def)
  next
    case b
    have "slotClosed c cc (closeConn cc c2)"
      using f by (simp add: slotClosed_def closeConn_def decConnsCount_def)
    moreover from b u have "doAfterAcquire e io req resp cc c
        = ((True, err), resp, closeConn cc c2)" by auto
    ultimately show ?thesis using b by (auto simp: Let_def)
  next
    case c
    from c u have r: "doAfterAcquire e io req resp cc c
        = doAfterWrite io (resetConnectionOf c cc req) req resp cc c2" by auto
    show ?thesis
      using doAfterWrite_disposition [of io "resetConnectionOf c cc req" req resp cc c2]
      unfolding r slotClosed_frame [OF f(1,2,3)] slotReleased_frame [OF f(1,2,3)]
        responseRead_frame [OF f(4)] .
  qed
qed


lemma slot_exclusive: "slotClosed c cc c' \<Longrightarrow> \<not> slotReleased c cc c'"
  by (simp add: slotClosed_def slotReleased_def)

text \<open>
  Claim C3. When \<open>acquireConn\<close> fails, \<open>do\<close> returns its error and touches no
  slot. When it yields a slot \<open>cc\<close>: if \<open>do\<close> returns an error (the write
  deadline, the serialization, the flush, the read deadline or the read of the
  response failed), the slot has been closed (\<open>connsCount\<close> is decremented, the
  connection is closed, the idle list is as it was); if \<open>do\<close> returns no error,
  the slot has been closed when \<^verbatim>\<open>resetConnection\<close> was set or the request or the
  response read carries \<^verbatim>\<open>Connection: close\<close>, and otherwise it has been appended
  to the idle list. Closing and releasing exclude each other, so a slot that
  was closed is never in the idle list.
\<close>

theorem do_connection_disposition:
  "(case acquireConn e (c\<lparr>lastUseTime := (now c div Second - startTimeUnix c) mod 2 ^ 32,
                          exchanges := exchanges c + 1\<rparr>) of
      (Inl err, c1) \<Rightarrow> do e req resp c = ((False, Some err), resp, c1)
    | (Inr cc, c1) \<Rightarrow>
        (let res = do e req resp c; err = snd (fst res); c' = snd (snd res);
             io = exch e (exchanges c)
         in (if err \<noteq> None then slotClosed c1 cc c'
             else if resetConnectionOf c1 cc req \<or> reqConnectionClose req
                     \<or> respConnectionClose (responseRead io c1 req resp)
                  then slotClosed c1 cc c' else slotReleased c1 cc c')
            \<and> \<not> (slotClosed c1 cc c' \<and> slotReleased c1 cc c')))"
proof (cases "acquireConn e (c\<lparr>lastUseTime := (now c div Second - startTimeUnix c) mod 2 ^ 32,
                          exchanges := exchanges c + 1\<rparr>)")
  case (Pair r c1)
  show ?thesis
  proof (cases r)
    case (Inl err)
    with Pair show ?thesis by (simp add: do_def Let_def)
  next
    case (Inr cc)
    with Pair have d: "do e req resp c = doAfterAcquire e (exch e (exchanges c)) req resp cc c1"
      by (simp add: do_def Let_def)
    show ?thesis
      using doAfterAcquire_disposition [of e "exch e (exchanges c)" req resp cc c1]
        slot_exclusive [of c1 cc "snd (snd (doAfterAcquire e (exch e (exchanges c)) req resp cc c1))"]
      unfolding Pair Inr d by (auto simp: Let_def)
  qed
qed

lemma do_ok_get: "fst (do exampleEnv getRequest None exampleClient) = (False, None)"
  by (simp add: eval_defs)

theorem do_connection_disposition_witness:
  "slotReleased
     (snd (acquireConn exampleEnv
        (exampleClient\<lparr>lastUseTime := (now exampleClient div Second
                                          - startTimeUnix exampleClient) mod 2 ^ 32,
                        exchanges := exchanges exampleClient + 1\<rparr>)))
     \<lparr>cc_c = 0, createdTime = 1000, cc_lastUseTime = 0\<rparr>
     (snd (snd (do exampleEnv getRequest None exampleClient)))
   \<and> slotClosed
     (snd (acquireConn flakyEnv
        (exampleClient\<lparr>lastUseTime := (now exampleClient div Second
                                          - startTimeUnix exampleClient) mod 2 ^ 32,
                        exchanges := exchanges exampleClient + 1\<rparr>)))
     \<lparr>cc_c = 0, createdTime = 1000, cc_lastUseTime = 0\<rparr>
     (snd (snd (do flakyEnv getRequest None exampleClient)))"
proof -
  let ?c0 = "exampleClient\<lparr>lastUseTime := (now exampleClient div Second
                                          - startTimeUnix exampleClient) mod 2 ^ 32,
                        exchanges := exchanges exampleClient + 1\<rparr>"
  let ?cc = "\<lparr>cc_c = 0, createdTime = 1000, cc_lastUseTime = 0\<rparr>"
  define c1 where "c1 = snd (acquireConn exampleEnv ?c0)"
  define c2 where "c2 = snd (acquireConn flakyEnv ?c0)"
  have a1: "acquireConn exampleEnv ?c0 = (Inr ?cc, c1)"
    unfolding c1_def by (simp add: eval_defs)
  have a2: "acquireConn flakyEnv ?c0 = (Inr ?cc, c2)"
    unfolding c2_def by (simp add: eval_defs)
  have r1: "\<not> resetConnectionOf c1 ?cc getRequest" "\<not> reqConnectionClose getRequest"
    "\<not> respConnectionClose (responseRead (exch exampleEnv (exchanges exampleClient)) c1
          getRequest None)"
    unfolding c1_def by (simp_all add: eval_defs responseRead_def)
  have t1: "slotReleased c1 ?cc (snd (snd (do exampleEnv getRequest None exampleClient)))"
    using do_connection_disposition [where e = exampleEnv and c = exampleClient
        and req = getRequest and resp = None] r1 do_ok_get
    unfolding a1 by (simp add: Let_def)
  have t2: "slotClosed c2 ?cc (snd (snd (do flakyEnv getRequest None exampleClient)))"
    using do_connection_disposition [where e = flakyEnv and c = exampleClient
        and req = getRequest and resp = None] do_flaky_get
    unfolding a2 by (simp add: Let_def)
  from t1 t2 show ?thesis unfolding c1_def c2_def by simp
qed

subsection \<open>HEAD requests\<close>

lemma dialHost_skipBodyEnv: "dialHost (skipBodyEnv e) c = dialHost e c"
  by (simp add: dialHost_def skipBodyEnv_def)

lemma dialLoop_skipBodyEnv: "dialLoop (skipBodyEnv e) dl n err c = dialLoop e dl n err c"
  by (induction n arbitrary: err c)
     (simp_all add: dialHost_skipBodyEnv split: prod.splits option.splits)

lemma acquireConn_skipBodyEnv: "acquireConn (skipBodyEnv e) c = acquireConn e c"
proof -
  have t: "dialTimeout (skipBodyEnv e) c' = dialTimeout e c'" for c'
    by (simp add: dialTimeout_def skipBodyEnv_def Let_def)
  have "dialHostHard (skipBodyEnv e) c' = dialHostHard e c'" for c'
    by (simp add: dialHostHard_def dialLoop_skipBodyEnv t)
  then show ?thesis by (simp add: acquireConn_def)
qed

lemma head_test: "(\<not> IsGet req \<and> IsHead req) \<longleftrightarrow> Method req = ''HEAD''"
  by (auto simp: IsGet_def IsHead_def)

lemma prepareResponse_head:
  "Method req = ''HEAD'' \<Longrightarrow> SkipBody (prepareResponse c req r)"
  by (simp add: prepareResponse_def IsGet_def IsHead_def Let_def)

lemma prepareResponse_head_idem:
  "Method req = ''HEAD'' \<Longrightarrow> (prepareResponse c req r)\<lparr>SkipBody := True\<rparr> = prepareResponse c req r"
  by (simp add: prepareResponse_def IsGet_def IsHead_def Let_def)

lemma doAfterWrite_skipBody:
  "Method req = ''HEAD'' \<Longrightarrow>
   doAfterWrite (skipBodyParser io) rc req resp cc c = doAfterWrite io rc req resp cc c"
  by (auto simp: doAfterWrite_def skipBodyParser_def prepareResponse_head_idem Let_def)

lemma doAfterAcquire_skipBody:
  "Method req = ''HEAD'' \<Longrightarrow>
   doAfterAcquire (skipBodyEnv e) (skipBodyParser io) req resp cc c = doAfterAcquire e io req resp cc c"
proof -
  assume h: "Method req = ''HEAD''"
  have g: "getClientName (skipBodyEnv e) c = getClientName e c"
    by (simp add: getClientName_def skipBodyEnv_def Let_def split: option.splits)
  have s: "requestAsSent (skipBodyEnv e) c cc req = requestAsSent e c cc req"
    by (simp add: requestAsSent_def g Let_def)
  have m: "Method (restoreRequest a b (requestAsSent e c cc req)) = ''HEAD''" for a b
    using h by (simp add: restoreRequest_def requestAsSent_def Let_def)
  have f: "setWriteDeadline (skipBodyParser io) = setWriteDeadline io"
    "writeReq (skipBodyParser io) = writeReq io" "flush (skipBodyParser io) = flush io"
    "writeElapsed (skipBodyParser io) = writeElapsed io"
    by (simp_all add: skipBodyParser_def)
  show ?thesis
    unfolding doAfterAcquire_def g s f
    by (auto simp: Let_def doAfterWrite_skipBody [OF m])
qed

lemma do_skipBody:
  "Method req = ''HEAD'' \<Longrightarrow> do (skipBodyEnv e) req resp c = do e req resp c"
proof -
  assume h: "Method req = ''HEAD''"
  have x: "exch (skipBodyEnv e) i = skipBodyParser (exch e i)" for i
    by (simp add: skipBodyEnv_def)
  show ?thesis
    unfolding do_def acquireConn_skipBodyEnv x
    by (simp add: Let_def doAfterAcquire_skipBody [OF h] split: prod.splits sum.splits)
qed

lemma prepareResponse_pool:
  "prepareResponse (c\<lparr>responsePool := n\<rparr>) req r = prepareResponse c req r"
  by (simp add: prepareResponse_def)

lemma doAfterWrite_reads_Some:
  "(let given = prepareResponse c req r;
        res = doAfterWrite io rc req (Some r) cc c
    in if ReadTimeout c > 0 \<and> setReadDeadline io \<noteq> None
       then fst res = (True, setReadDeadline io) \<and> fst (snd res) = Some r
       else snd (fst res) = fst (readResp io given)
            \<and> fst (snd res) = Some (snd (readResp io given)))"
  by (simp add: doAfterWrite_def Let_def del: not_None_eq)

lemma doAfterWrite_reads_None:
  "(let given = prepareResponse c req emptyResponse;
        res = doAfterWrite io rc req None cc c
    in if ReadTimeout c > 0 \<and> setReadDeadline io \<noteq> None
       then fst res = (True, setReadDeadline io) \<and> fst (snd res) = None
       else snd (fst res) = fst (readResp io given) \<and> fst (snd res) = None)"
  by (simp add: doAfterWrite_def Let_def AcquireResponse_def prepareResponse_pool
      del: not_None_eq)


lemma getClientName_config:
  "ReadTimeout (snd (getClientName e c)) = ReadTimeout c
   \<and> DisableHeaderNamesNormalizing (snd (getClientName e c)) = DisableHeaderNamesNormalizing c"
  by (simp add: getClientName_def Let_def split: option.splits)

lemma responseGiven_frame:
  "DisableHeaderNamesNormalizing c' = DisableHeaderNamesNormalizing c \<Longrightarrow>
   responseGiven c' req resp = responseGiven c req resp"
  by (simp add: responseGiven_def prepareResponse_def)

lemma doAfterWrite_reads:
  "(let given = responseGiven c req resp; res = doAfterWrite io rc req resp cc c
    in if ReadTimeout c > 0 \<and> setReadDeadline io \<noteq> None
       then fst res = (True, setReadDeadline io) \<and> fst (snd res) = resp
       else snd (fst res) = fst (readResp io given)
            \<and> fst (snd res) = (if resp = None then None else Some (snd (readResp io given))))"
proof (cases resp)
  case None
  with doAfterWrite_reads_None [of c req io rc cc] show ?thesis
    by (simp add: responseGiven_def Let_def del: not_None_eq)
next
  case (Some r)
  with doAfterWrite_reads_Some [of c req r io rc cc] show ?thesis
    by (simp add: responseGiven_def Let_def del: not_None_eq)
qed

lemma doAfterAcquire_reads:
  "(let given = responseGiven c req resp; res = doAfterAcquire e io req resp cc c
    in if readReached e io req cc c
       then snd (fst res) = fst (readResp io given)
            \<and> fst (snd res) = (if resp = None then None else Some (snd (readResp io given)))
       else fst (fst res) \<and> snd (fst res) \<noteq> None \<and> fst (snd res) = resp)"
proof -
  define c1 where "c1 = (if length (userAgent req) = 0 then snd (getClientName e c) else c)"
  define c2 where "c2 = c1\<lparr>now := now c1 + int (writeElapsed io)\<rparr>"
  define werr where "werr = writeReq io (requestAsSent e c cc req)"
  define err where "err = (if werr = None then flush io else werr)"
  have f: "ReadTimeout c2 = ReadTimeout c"
    "DisableHeaderNamesNormalizing c2 = DisableHeaderNamesNormalizing c"
    using getClientName_config [of e c] by (simp_all add: c2_def c1_def)
  have u: "doAfterAcquire e io req resp cc c =
      (if WriteTimeout c > 0 \<and> setWriteDeadline io \<noteq> None
       then ((True, setWriteDeadline io), resp, closeConn cc c)
       else if err \<noteq> None then ((True, err), resp, closeConn cc c2)
       else doAfterWrite io (resetConnectionOf c cc req) req resp cc c2)"
    by (auto simp: doAfterAcquire_unfold Let_def c1_def c2_def werr_def err_def)
  have e0: "err = None \<longleftrightarrow> werr = None \<and> flush io = None"
    by (auto simp: err_def)
  note w = doAfterWrite_reads [of c2 req resp io "resetConnectionOf c cc req" cc,
      unfolded Let_def responseGiven_frame [OF f(2)] f(1)]
  consider (a) "WriteTimeout c > 0 \<and> setWriteDeadline io \<noteq> None"
    | (b) "\<not> (WriteTimeout c > 0 \<and> setWriteDeadline io \<noteq> None)" "err \<noteq> None"
    | (c) "\<not> (WriteTimeout c > 0 \<and> setWriteDeadline io \<noteq> None)" "err = None"
          "ReadTimeout c > 0 \<and> setReadDeadline io \<noteq> None"
    | (d) "\<not> (WriteTimeout c > 0 \<and> setWriteDeadline io \<noteq> None)" "err = None"
          "\<not> (ReadTimeout c > 0 \<and> setReadDeadline io \<noteq> None)"
    by blast
  then show ?thesis
  proof cases
    case a
    then have nr: "\<not> readReached e io req cc c" by (simp add: readReached_def)
    from a u have "doAfterAcquire e io req resp cc c
        = ((True, setWriteDeadline io), resp, closeConn cc c)" by auto
    with a nr show ?thesis by (simp add: Let_def del: not_None_eq)
  next
    case b
    with e0 have nr: "\<not> readReached e io req cc c"
      by (auto simp: readReached_def werr_def)
    from b u have "doAfterAcquire e io req resp cc c = ((True, err), resp, closeConn cc c2)"
      by auto
    with b nr show ?thesis by (simp add: Let_def del: not_None_eq)
  next
    case c
    then have nr: "\<not> readReached e io req cc c" by (simp add: readReached_def)
    from c u have r: "doAfterAcquire e io req resp cc c
        = doAfterWrite io (resetConnectionOf c cc req) req resp cc c2"
      by auto
    from c w have "fst (doAfterWrite io (resetConnectionOf c cc req) req resp cc c2)
          = (True, setReadDeadline io)
        \<and> fst (snd (doAfterWrite io (resetConnectionOf c cc req) req resp cc c2)) = resp"
      by (simp del: not_None_eq)
    with c r nr show ?thesis by (simp add: Let_def del: not_None_eq)
  next
    case d
    with e0 have rr: "readReached e io req cc c"
      by (auto simp: readReached_def werr_def)
    from d u have r: "doAfterAcquire e io req resp cc c
        = doAfterWrite io (resetConnectionOf c cc req) req resp cc c2"
      by auto
    from d w have "snd (fst (doAfterWrite io (resetConnectionOf c cc req) req resp cc c2))
          = fst (readResp io (responseGiven c req resp))
        \<and> fst (snd (doAfterWrite io (resetConnectionOf c cc req) req resp cc c2))
          = (if resp = None then None else Some (snd (readResp io (responseGiven c req resp))))"
      by (simp del: not_None_eq)
    with r rr show ?thesis by (simp add: Let_def del: not_None_eq)
  qed
qed

lemma responseGiven_SkipBody:
  "SkipBody (responseGiven c req resp)
     = (Method req = ''HEAD''
        \<or> SkipBody (case resp of None \<Rightarrow> emptyResponse | Some r \<Rightarrow> r))"
  by (simp add: responseGiven_def prepareResponse_def IsGet_def IsHead_def Let_def)

text \<open>
  Claim C9. The test that \<open>do\<close> makes before it sets \<open>SkipBody\<close> (the request is
  not a GET and is a HEAD) holds exactly when the method is HEAD. Once \<open>do\<close>
  holds a slot, either one of the steps before the read fails, and then \<open>do\<close>
  returns an error with the retry flag and leaves the caller's response alone;
  or \<open>do\<close> calls the parser on the response \<open>responseGiven\<close>, and the error it
  returns and the response it leaves to the caller are the ones the parser
  produced from that response, whatever the parser is. That response has
  \<open>SkipBody\<close> set exactly when the method is HEAD or the caller's response had
  the flag already; so for every HEAD request the flag is set before the
  response is read, and \<open>do\<close> behaves as it does with a parser that is shown
  only responses with the flag set.
\<close>

theorem head_sets_SkipBody:
  "((\<not> IsGet req \<and> IsHead req) \<longleftrightarrow> Method req = ''HEAD'')
   \<and> (case acquireConn e (c\<lparr>lastUseTime := (now c div Second - startTimeUnix c) mod 2 ^ 32,
                             exchanges := exchanges c + 1\<rparr>) of
         (Inl err, c1) \<Rightarrow> do e req resp c = ((False, Some err), resp, c1)
       | (Inr cc, c1) \<Rightarrow>
           (let io = exch e (exchanges c); given = responseGiven c1 req resp;
                res = do e req resp c
            in (if readReached e io req cc c1
                then snd (fst res) = fst (readResp io given)
                     \<and> fst (snd res)
                       = (if resp = None then None else Some (snd (readResp io given)))
                else fst (fst res) \<and> snd (fst res) \<noteq> None \<and> fst (snd res) = resp)
               \<and> SkipBody given
                 = (Method req = ''HEAD''
                    \<or> SkipBody (case resp of None \<Rightarrow> emptyResponse | Some r \<Rightarrow> r))))
   \<and> (Method req = ''HEAD'' \<longrightarrow> do (skipBodyEnv e) req resp c = do e req resp c)"
proof (intro conjI impI)
  show "(\<not> IsGet req \<and> IsHead req) \<longleftrightarrow> Method req = ''HEAD''"
    by (rule head_test)
next
  assume "Method req = ''HEAD''"
  then show "do (skipBodyEnv e) req resp c = do e req resp c"
    by (rule do_skipBody)
next
  let ?c0 = "c\<lparr>lastUseTime := (now c div Second - startTimeUnix c) mod 2 ^ 32,
                exchanges := exchanges c + 1\<rparr>"
  show "case acquireConn e ?c0 of
         (Inl err, c1) \<Rightarrow> do e req resp c = ((False, Some err), resp, c1)
       | (Inr cc, c1) \<Rightarrow>
           (let io = exch e (exchanges c); given = responseGiven c1 req resp;
                res = do e req resp c
            in (if readReached e io req cc c1
                then snd (fst res) = fst (readResp io given)
                     \<and> fst (snd res)
                       = (if resp = None then None else Some (snd (readResp io given)))
                else fst (fst res) \<and> snd (fst res) \<noteq> None \<and> fst (snd res) = resp)
               \<and> SkipBody given
                 = (Method req = ''HEAD''
                    \<or> SkipBody (case resp of None \<Rightarrow> emptyResponse | Some r \<Rightarrow> r)))"
  proof (cases "acquireConn e ?c0")
    case (Pair r c1)
    show ?thesis
    proof (cases r)
      case (Inl err)
      with Pair show ?thesis by (simp add: do_def Let_def)
    next
      case (Inr cc)
      with Pair have d: "do e req resp c
          = doAfterAcquire e (exch e (exchanges c)) req resp cc c1"
        by (simp add: do_def Let_def)
      show ?thesis
        using doAfterAcquire_reads [of c1 req resp e "exch e (exchanges c)" cc]
          responseGiven_SkipBody [of c1 req resp]
        unfolding Pair Inr d by (simp add: Let_def del: not_None_eq)
    qed
  qed
qed

theorem head_sets_SkipBody_witness:
  "Method headRequest = ''HEAD''
   \<and> fst (snd (do exampleEnv headRequest (Some emptyResponse) exampleClient))
       = Some (emptyResponse\<lparr>SkipBody := True, StatusCode := 200\<rparr>)
   \<and> do (skipBodyEnv exampleEnv) headRequest (Some emptyResponse) exampleClient
       = do exampleEnv headRequest (Some emptyResponse) exampleClient"
proof -
  let ?c0 = "exampleClient\<lparr>lastUseTime := (now exampleClient div Second
                                          - startTimeUnix exampleClient) mod 2 ^ 32,
                        exchanges := exchanges exampleClient + 1\<rparr>"
  let ?cc = "\<lparr>cc_c = 0, createdTime = 1000, cc_lastUseTime = 0\<rparr>"
  define c1 where "c1 = snd (acquireConn exampleEnv ?c0)"
  have a1: "acquireConn exampleEnv ?c0 = (Inr ?cc, c1)"
    unfolding c1_def by (simp add: eval_defs)
  have x: "exch exampleEnv (exchanges exampleClient) = okExchange"
    by (simp add: exampleEnv_def)
  have rr: "readReached exampleEnv okExchange headRequest ?cc c1"
    unfolding c1_def by (simp add: readReached_def eval_defs)
  have g: "responseGiven c1 headRequest (Some emptyResponse) = emptyResponse\<lparr>SkipBody := True\<rparr>"
    unfolding c1_def by (simp add: responseGiven_def eval_defs)
  have rd: "readResp okExchange (emptyResponse\<lparr>SkipBody := True\<rparr>)
      = (None, emptyResponse\<lparr>SkipBody := True, StatusCode := 200\<rparr>)"
    by (simp add: okExchange_def)
  note t = head_sets_SkipBody [where e = exampleEnv and c = exampleClient
      and req = headRequest and resp = "Some emptyResponse"]
  from t have t2: "fst (snd (do exampleEnv headRequest (Some emptyResponse) exampleClient))
       = Some (emptyResponse\<lparr>SkipBody := True, StatusCode := 200\<rparr>)"
    unfolding a1 x using rr g rd by (simp add: Let_def del: not_None_eq)
  from t example_facts(3) have t3:
    "do (skipBodyEnv exampleEnv) headRequest (Some emptyResponse) exampleClient
       = do exampleEnv headRequest (Some emptyResponse) exampleClient"
    by blast
  from t2 t3 example_facts(3) show ?thesis by simp
qed

subsection \<open>Nil responses\<close>

lemma closeConn_pool:
  "closeConn cc (c\<lparr>responsePool := n\<rparr>) = (closeConn cc c)\<lparr>responsePool := n\<rparr>"
  by (simp add: closeConn_def decConnsCount_def)

lemma releaseConn_pool:
  "releaseConn cc (c\<lparr>responsePool := n\<rparr>) = (releaseConn cc c)\<lparr>responsePool := n\<rparr>"
  by (simp add: releaseConn_def)

lemma doAfterWrite_nil_pool:
  "responsePool (snd (snd (doAfterWrite io rc req None cc c))) = max 1 (responsePool c)
   \<and> fst (snd (doAfterWrite io rc req None cc c)) = None"
  by (simp add: doAfterWrite_def Let_def AcquireResponse_def ReleaseResponse_def closeConn_def
      decConnsCount_def releaseConn_def del: not_None_eq)


lemma pool_back: "p - Suc 0 + Suc 0 = max (Suc 0) p" for p :: nat
  by simp

lemma doAfterWrite_nil_some:
  assumes "parserAgrees io c req r"
  shows "fst (doAfterWrite io rc req None cc c) = fst (doAfterWrite io rc req (Some r) cc c)
     \<and> snd (snd (doAfterWrite io rc req None cc c))
       = (snd (snd (doAfterWrite io rc req (Some r) cc c)))
           \<lparr>responsePool := max 1 (responsePool c)\<rparr>"
proof -
  have p: "prepareResponse (c\<lparr>responsePool := n\<rparr>) req x = prepareResponse c req x" for n x
    by (simp add: prepareResponse_def)
  from assms have a:
    "fst (readResp io (prepareResponse c req r))
       = fst (readResp io (prepareResponse c req emptyResponse))"
    "respConnectionClose (snd (readResp io (prepareResponse c req r)))
       = respConnectionClose (snd (readResp io (prepareResponse c req emptyResponse)))"
    by (simp_all add: parserAgrees_def responseGiven_def)
  show ?thesis
    by (simp add: doAfterWrite_def Let_def AcquireResponse_def ReleaseResponse_def closeConn_def
        decConnsCount_def releaseConn_def p a pool_back del: not_None_eq)
qed


lemma getClientName_responsePool:
  "responsePool (snd (getClientName e c)) = responsePool c"
  by (simp add: getClientName_def Let_def split: option.splits)

lemma closeConn_responsePool: "responsePool (closeConn cc c) = responsePool c"
  by (simp add: closeConn_def decConnsCount_def)

lemma pool_same: "responsePool x = n \<Longrightarrow> x\<lparr>responsePool := n\<rparr> = x"
  by auto

lemma parserAgrees_frame:
  "DisableHeaderNamesNormalizing c' = DisableHeaderNamesNormalizing c \<Longrightarrow>
   parserAgrees io c' req r = parserAgrees io c req r"
  by (simp only: parserAgrees_def responseGiven_frame [of c' c])

lemma doAfterAcquire_nil_some:
  assumes "parserAgrees io c req r"
  shows "fst (doAfterAcquire e io req None cc c) = fst (doAfterAcquire e io req (Some r) cc c)
     \<and> snd (snd (doAfterAcquire e io req None cc c))
       = (snd (snd (doAfterAcquire e io req (Some r) cc c)))
           \<lparr>responsePool := (if writeDone e io req cc c then max 1 (responsePool c)
                              else responsePool c)\<rparr>"
proof -
  define c1 where "c1 = (if length (userAgent req) = 0 then snd (getClientName e c) else c)"
  define c2 where "c2 = c1\<lparr>now := now c1 + int (writeElapsed io)\<rparr>"
  define werr where "werr = writeReq io (requestAsSent e c cc req)"
  define err where "err = (if werr = None then flush io else werr)"
  have f: "DisableHeaderNamesNormalizing c2 = DisableHeaderNamesNormalizing c"
    "responsePool c2 = responsePool c"
    using getClientName_config [of e c] getClientName_responsePool [of e c]
    by (simp_all add: c2_def c1_def)
  have uN: "doAfterAcquire e io req None cc c =
      (if WriteTimeout c > 0 \<and> setWriteDeadline io \<noteq> None
       then ((True, setWriteDeadline io), None, closeConn cc c)
       else if err \<noteq> None then ((True, err), None, closeConn cc c2)
       else doAfterWrite io (resetConnectionOf c cc req) req None cc c2)"
    by (auto simp: doAfterAcquire_unfold Let_def c1_def c2_def werr_def err_def)
  have uS: "doAfterAcquire e io req (Some r) cc c =
      (if WriteTimeout c > 0 \<and> setWriteDeadline io \<noteq> None
       then ((True, setWriteDeadline io), Some r, closeConn cc c)
       else if err \<noteq> None then ((True, err), Some r, closeConn cc c2)
       else doAfterWrite io (resetConnectionOf c cc req) req (Some r) cc c2)"
    by (auto simp: doAfterAcquire_unfold Let_def c1_def c2_def werr_def err_def)
  have e0: "err = None \<longleftrightarrow> werr = None \<and> flush io = None"
    by (auto simp: err_def)
  from assms have pa: "parserAgrees io c2 req r"
    by (simp add: parserAgrees_frame [OF f(1)])
  have w: "fst (doAfterWrite io (resetConnectionOf c cc req) req None cc c2)
        = fst (doAfterWrite io (resetConnectionOf c cc req) req (Some r) cc c2)
     \<and> snd (snd (doAfterWrite io (resetConnectionOf c cc req) req None cc c2))
       = (snd (snd (doAfterWrite io (resetConnectionOf c cc req) req (Some r) cc c2)))
           \<lparr>responsePool := max 1 (responsePool c)\<rparr>"
    using doAfterWrite_nil_some [OF pa, of "resetConnectionOf c cc req" cc] f(2) by simp
  have k1: "(closeConn cc c)\<lparr>responsePool := responsePool c\<rparr> = closeConn cc c"
    by (rule pool_same) (rule closeConn_responsePool)
  have k2: "(closeConn cc c2)\<lparr>responsePool := responsePool c\<rparr> = closeConn cc c2"
    by (rule pool_same) (simp add: closeConn_responsePool f(2))
  consider (a) "WriteTimeout c > 0 \<and> setWriteDeadline io \<noteq> None"
    | (b) "\<not> (WriteTimeout c > 0 \<and> setWriteDeadline io \<noteq> None)" "err \<noteq> None"
    | (c) "\<not> (WriteTimeout c > 0 \<and> setWriteDeadline io \<noteq> None)" "err = None"
    by blast
  then show ?thesis
  proof cases
    case a
    then have nw: "\<not> writeDone e io req cc c" by (simp add: writeDone_def)
    from a uN have eN: "doAfterAcquire e io req None cc c
        = ((True, setWriteDeadline io), None, closeConn cc c)" by auto
    from a uS have eS: "doAfterAcquire e io req (Some r) cc c
        = ((True, setWriteDeadline io), Some r, closeConn cc c)" by auto
    show ?thesis unfolding eN eS
      by (simp only: nw if_False fst_conv snd_conv k1)
  next
    case b
    with e0 have nw: "\<not> writeDone e io req cc c"
      by (auto simp: writeDone_def werr_def)
    from b uN have eN: "doAfterAcquire e io req None cc c
        = ((True, err), None, closeConn cc c2)" by auto
    from b uS have eS: "doAfterAcquire e io req (Some r) cc c
        = ((True, err), Some r, closeConn cc c2)" by auto
    show ?thesis unfolding eN eS
      by (simp only: nw if_False fst_conv snd_conv k2)
  next
    case c
    with e0 have wd: "writeDone e io req cc c"
      by (auto simp: writeDone_def werr_def)
    from c uN have eN: "doAfterAcquire e io req None cc c
        = doAfterWrite io (resetConnectionOf c cc req) req None cc c2" by auto
    from c uS have eS: "doAfterAcquire e io req (Some r) cc c
        = doAfterWrite io (resetConnectionOf c cc req) req (Some r) cc c2" by auto
    show ?thesis unfolding eN eS using w by (simp only: wd if_True)
  qed
qed

lemma doAfterAcquire_nil_pool:
  "fst (snd (doAfterAcquire e io req None cc c)) = None
   \<and> responsePool (snd (snd (doAfterAcquire e io req None cc c)))
     = (if writeDone e io req cc c then max 1 (responsePool c) else responsePool c)"
proof -
  define c1 where "c1 = (if length (userAgent req) = 0 then snd (getClientName e c) else c)"
  define c2 where "c2 = c1\<lparr>now := now c1 + int (writeElapsed io)\<rparr>"
  define werr where "werr = writeReq io (requestAsSent e c cc req)"
  define err where "err = (if werr = None then flush io else werr)"
  have f: "responsePool c2 = responsePool c"
    using getClientName_responsePool [of e c] by (simp add: c2_def c1_def)
  have uN: "doAfterAcquire e io req None cc c =
      (if WriteTimeout c > 0 \<and> setWriteDeadline io \<noteq> None
       then ((True, setWriteDeadline io), None, closeConn cc c)
       else if err \<noteq> None then ((True, err), None, closeConn cc c2)
       else doAfterWrite io (resetConnectionOf c cc req) req None cc c2)"
    by (auto simp: doAfterAcquire_unfold Let_def c1_def c2_def werr_def err_def)
  have e0: "err = None \<longleftrightarrow> werr = None \<and> flush io = None"
    by (auto simp: err_def)
  note w = doAfterWrite_nil_pool [of io "resetConnectionOf c cc req" req cc c2]
  consider (a) "WriteTimeout c > 0 \<and> setWriteDeadline io \<noteq> None"
    | (b) "\<not> (WriteTimeout c > 0 \<and> setWriteDeadline io \<noteq> None)" "err \<noteq> None"
    | (c) "\<not> (WriteTimeout c > 0 \<and> setWriteDeadline io \<noteq> None)" "err = None"
    by blast
  then show ?thesis
  proof cases
    case a
    then have nw: "\<not> writeDone e io req cc c" by (simp add: writeDone_def)
    from a uN have eN: "doAfterAcquire e io req None cc c
        = ((True, setWriteDeadline io), None, closeConn cc c)" by auto
    show ?thesis unfolding eN
      by (simp only: nw if_False fst_conv snd_conv closeConn_responsePool simp_thms)
  next
    case b
    with e0 have nw: "\<not> writeDone e io req cc c"
      by (auto simp: writeDone_def werr_def)
    from b uN have eN: "doAfterAcquire e io req None cc c
        = ((True, err), None, closeConn cc c2)" by auto
    show ?thesis unfolding eN
      by (simp only: nw if_False fst_conv snd_conv closeConn_responsePool f simp_thms)
  next
    case c
    with e0 have wd: "writeDone e io req cc c"
      by (auto simp: writeDone_def werr_def)
    from c uN have eN: "doAfterAcquire e io req None cc c
        = doAfterWrite io (resetConnectionOf c cc req) req None cc c2" by auto
    show ?thesis unfolding eN using w by (simp only: wd if_True f simp_thms)
  qed
qed

lemma readReached_writeDone: "readReached e io req cc c \<Longrightarrow> writeDone e io req cc c"
  by (simp add: readReached_def writeDone_def)

text \<open>
  Claim C10, as the claim states it, fails. With no response from the caller,
  \<open>do\<close> reads into a scratch response, which is empty; a caller's response is
  read into as the caller left it. A caller's response with \<open>SkipBody\<close> set
  makes the parser skip a body that it reads into the scratch response: when
  that body is above the limit, the GET request below fails and closes its
  connection with no response from the caller, and succeeds and returns the
  connection to the pool with the caller's response.
\<close>

theorem nil_response_counterexample:
  "fst (do bodyTooLargeEnv getRequest None exampleClient)
     = (False, Some (OtherError ''body size exceeds the given limit''))
   \<and> fst (do bodyTooLargeEnv getRequest (Some (emptyResponse\<lparr>SkipBody := True\<rparr>)) exampleClient)
     = (False, None)
   \<and> connsCount (snd (snd (do bodyTooLargeEnv getRequest None exampleClient))) = 0
   \<and> connsCount (snd (snd (do bodyTooLargeEnv getRequest
        (Some (emptyResponse\<lparr>SkipBody := True\<rparr>)) exampleClient))) = 1"
  by (simp add: eval_defs bodyTooLargeEnv_def bodyTooLargeExchange_def)

text \<open>
  Claim C10, amended. With no response from the caller, \<open>do\<close> returns none. It
  takes a scratch response from the response pool once the request has been
  written and flushed, and puts it back on every path from there: the pool
  then holds what it held before, or the one new response when it was empty;
  on the paths that end earlier the pool is not touched. When \<open>do\<close> gets as
  far as the read, the error it returns is the one the parser produced from
  the scratch response, an empty response prepared as a caller's would be. And
  for every response \<open>r\<close> of a caller on which the parser reports the same error
  and the same \<^verbatim>\<open>Connection: close\<close> as on the scratch response, \<open>do\<close> returns
  the same retry flag and error with no response as with \<open>r\<close>, and leaves the
  same state, the response pool apart: the same connection count, idle list
  and closed connections.
\<close>

theorem do_nil_response:
  "case acquireConn e (c\<lparr>lastUseTime := (now c div Second - startTimeUnix c) mod 2 ^ 32,
                          exchanges := exchanges c + 1\<rparr>) of
     (Inl err, c1) \<Rightarrow> do e req None c = ((False, Some err), None, c1)
                      \<and> do e req (Some r) c = ((False, Some err), Some r, c1)
   | (Inr cc, c1) \<Rightarrow>
       (let io = exch e (exchanges c); res = do e req None c
        in fst (snd res) = None
           \<and> responsePool (snd (snd res))
             = (if writeDone e io req cc c1 then max 1 (responsePool c1) else responsePool c1)
           \<and> (readReached e io req cc c1 \<longrightarrow>
                 snd (fst res) = fst (readResp io (responseGiven c1 req None)))
           \<and> (parserAgrees io c1 req r \<longrightarrow>
                 fst res = fst (do e req (Some r) c)
                 \<and> snd (snd res)
                   = (snd (snd (do e req (Some r) c)))
                       \<lparr>responsePool := responsePool (snd (snd res))\<rparr>))"
proof -
  let ?c0 = "c\<lparr>lastUseTime := (now c div Second - startTimeUnix c) mod 2 ^ 32,
                exchanges := exchanges c + 1\<rparr>"
  show ?thesis
  proof (cases "acquireConn e ?c0")
    case (Pair a c1)
    show ?thesis
    proof (cases a)
      case (Inl err)
      with Pair show ?thesis by (simp add: do_def Let_def)
    next
      case (Inr cc)
      let ?io = "exch e (exchanges c)"
      from Pair Inr have d: "do e req resp c = doAfterAcquire e ?io req resp cc c1" for resp
        by (simp add: do_def Let_def)
      note p = doAfterAcquire_nil_pool [of e ?io req cc c1]
      have rd: "snd (fst (doAfterAcquire e ?io req None cc c1))
          = fst (readResp ?io (responseGiven c1 req None))"
        if "readReached e ?io req cc c1"
        using doAfterAcquire_reads [of c1 req None e ?io cc] that
        by (simp add: Let_def del: not_None_eq)
      have ag: "fst (doAfterAcquire e ?io req None cc c1)
            = fst (doAfterAcquire e ?io req (Some r) cc c1)
          \<and> snd (snd (doAfterAcquire e ?io req None cc c1))
            = (snd (snd (doAfterAcquire e ?io req (Some r) cc c1)))
                \<lparr>responsePool := responsePool (snd (snd (doAfterAcquire e ?io req None cc c1)))\<rparr>"
        if "parserAgrees ?io c1 req r"
        using doAfterAcquire_nil_some [OF that, of e cc] p by simp
      show ?thesis
        unfolding Pair Inr d using p rd ag by (simp add: Let_def del: not_None_eq)
    qed
  qed
qed

theorem do_nil_response_witness:
  "fst (do exampleEnv getRequest None exampleClient) = (False, None)
   \<and> fst (do exampleEnv getRequest (Some staleResponse) exampleClient) = (False, None)
   \<and> fst (snd (do exampleEnv getRequest None exampleClient)) = None
   \<and> responsePool exampleClient = 0
   \<and> responsePool (snd (snd (do exampleEnv getRequest None exampleClient))) = 1
   \<and> snd (snd (do exampleEnv getRequest None exampleClient))
     = (snd (snd (do exampleEnv getRequest (Some staleResponse) exampleClient)))
         \<lparr>responsePool := 1\<rparr>"
proof -
  let ?c0 = "exampleClient\<lparr>lastUseTime := (now exampleClient div Second
                                          - startTimeUnix exampleClient) mod 2 ^ 32,
                        exchanges := exchanges exampleClient + 1\<rparr>"
  let ?cc = "\<lparr>cc_c = 0, createdTime = 1000, cc_lastUseTime = 0\<rparr>"
  let ?N = "do exampleEnv getRequest None exampleClient"
  let ?S = "do exampleEnv getRequest (Some staleResponse) exampleClient"
  define c1 where "c1 = snd (acquireConn exampleEnv ?c0)"
  have a1: "acquireConn exampleEnv ?c0 = (Inr ?cc, c1)"
    unfolding c1_def by (simp add: eval_defs)
  have x: "exch exampleEnv (exchanges exampleClient) = okExchange"
    by (simp add: exampleEnv_def)
  have rr: "readReached exampleEnv okExchange getRequest ?cc c1"
    unfolding c1_def by (simp add: readReached_def eval_defs)
  have wd: "writeDone exampleEnv okExchange getRequest ?cc c1"
    using rr by (rule readReached_writeDone)
  have pa: "parserAgrees okExchange c1 getRequest staleResponse"
    unfolding c1_def
    by (simp add: parserAgrees_def responseGiven_def staleResponse_def eval_defs)
  have rp: "responsePool c1 = 0"
    unfolding c1_def by (simp add: eval_defs)
  have rd: "fst (readResp okExchange (responseGiven c1 getRequest None)) = None"
    by (simp add: okExchange_def)
  note t = do_nil_response [where e = exampleEnv and c = exampleClient
      and req = getRequest and r = staleResponse]
  from t have t1: "fst (snd ?N) = None"
    unfolding a1 x by (simp add: Let_def del: not_None_eq)
  from t have t2: "responsePool (snd (snd ?N)) = 1"
    unfolding a1 x using wd rp by (simp add: Let_def del: not_None_eq)
  from t have t3: "snd (fst ?N) = None"
    unfolding a1 x using rr rd by (simp add: Let_def del: not_None_eq)
  from t have t4: "fst ?N = fst ?S \<and> snd (snd ?N) = (snd (snd ?S))\<lparr>responsePool := 1\<rparr>"
    unfolding a1 x using pa t2 by (simp add: Let_def del: not_None_eq)
  have ok: "fst ?N = (False, None)" by (rule do_ok_get)
  have p0: "responsePool exampleClient = 0" by (simp add: exampleClient_def)
  from t1 t2 t3 t4 ok p0 show ?thesis by simp
qed

subsection \<open>The redirect follower\<close>

lemma followLoop_step:
  "followLoop scriptedDoer g req resp url rc sc ((None, r) # rest) =
     (let req1 = req\<lparr>parsedURI := False, reqHost := [], RequestURI := url\<rparr>
      in if StatusCode r \<noteq> 301 \<and> StatusCode r \<noteq> 302 \<and> StatusCode r \<noteq> 303
         then ((StatusCode r, None), req1, r, rest)
         else if rc + 1 > 16 then ((StatusCode r, Some errTooManyRedirects), req1, r, rest)
         else if peek r strLocation = []
         then ((StatusCode r, Some errMissingLocation), req1, r, rest)
         else followLoop scriptedDoer g req1 r (g url (peek r strLocation)) (rc + 1)
                (StatusCode r) rest)"
  by (subst followLoop.simps)
     (simp add: Let_def StatusMovedPermanently_def StatusFound_def StatusSeeOther_def
        maxRedirectsCount_def)

lemma followLoop_redirects:
  "\<forall>r \<in> set rs. redirectReply r \<Longrightarrow> rc + int (length rs) \<le> 16 \<Longrightarrow>
   \<exists>req' resp' url' sc'.
     followLoop scriptedDoer g req resp url rc sc (map (Pair None) rs @ rest)
       = followLoop scriptedDoer g req' resp' url' (rc + int (length rs)) sc' rest"
proof (induction rs arbitrary: req resp url rc sc)
  case Nil
  then show ?case by auto
next
  case (Cons r rs)
  let ?req1 = "req\<lparr>parsedURI := False, reqHost := [], RequestURI := url\<rparr>"
  have r: "redirectReply r" using Cons.prems(1) by simp
  have s: "followLoop scriptedDoer g req resp url rc sc (map (Pair None) (r # rs) @ rest)
      = followLoop scriptedDoer g ?req1 r (g url (peek r strLocation)) (rc + 1)
          (StatusCode r) (map (Pair None) rs @ rest)"
    using r Cons.prems(2) by (auto simp: followLoop_step redirectReply_def Let_def)
  have "\<forall>r \<in> set rs. redirectReply r" using Cons.prems(1) by simp
  moreover have "rc + 1 + int (length rs) \<le> 16" using Cons.prems(2) by simp
  ultimately obtain req' resp' url' sc' where ob:
    "followLoop scriptedDoer g ?req1 r (g url (peek r strLocation)) (rc + 1)
          (StatusCode r) (map (Pair None) rs @ rest)
     = followLoop scriptedDoer g req' resp' url' (rc + 1 + int (length rs)) sc' rest"
    using Cons.IH by blast
  have e: "rc + 1 + int (length rs) = rc + int (length (r # rs))" by simp
  have "followLoop scriptedDoer g req resp url rc sc (map (Pair None) (r # rs) @ rest)
     = followLoop scriptedDoer g req' resp' url' (rc + int (length (r # rs))) sc' rest"
    unfolding s ob e ..
  then show ?case by blast
qed


text \<open>The reply that follows a chain of redirects decides the outcome.\<close>

lemma followLoop_after_redirects:
  assumes "\<forall>r \<in> set rs. redirectReply r" "int (length rs) \<le> 16"
  shows "\<exists>req'.
     followLoop scriptedDoer g req resp url 0 sc (map (Pair None) rs @ (None, r) # rest)
       = (if StatusCode r \<noteq> 301 \<and> StatusCode r \<noteq> 302 \<and> StatusCode r \<noteq> 303
          then ((StatusCode r, None), req', r, rest)
          else if length rs = 16
          then ((StatusCode r, Some errTooManyRedirects), req', r, rest)
          else if peek r strLocation = []
          then ((StatusCode r, Some errMissingLocation), req', r, rest)
          else followLoop scriptedDoer g req' r (g (RequestURI req') (peek r strLocation))
                 (int (length rs) + 1) (StatusCode r) rest)"
proof -
  from followLoop_redirects [OF assms(1), of 0 g req resp url sc "(None, r) # rest"] assms(2)
  obtain req1 resp1 url1 sc1 where
    "followLoop scriptedDoer g req resp url 0 sc (map (Pair None) rs @ (None, r) # rest)
       = followLoop scriptedDoer g req1 resp1 url1 (int (length rs)) sc1 ((None, r) # rest)"
    by auto
  then show ?thesis
    using assms(2)
    by (intro exI [of _ "req1\<lparr>parsedURI := False, reqHost := [], RequestURI := url1\<rparr>"])
       (auto simp: followLoop_step Let_def)
qed


lemma doRequestFollowRedirects_after_redirects:
  assumes "\<forall>r \<in> set rs. redirectReply r" "length rs \<le> 16"
  shows "(StatusCode r \<notin> {301, 302, 303} \<longrightarrow>
            fst (doRequestFollowRedirects scriptedDoer g req dst url
                   (map (Pair None) rs @ (None, r) # rest)) = (StatusCode r, body r, None)
            \<and> snd (snd (doRequestFollowRedirects scriptedDoer g req dst url
                   (map (Pair None) rs @ (None, r) # rest))) = rest)
     \<and> (StatusCode r \<in> {301, 302, 303} \<and> length rs = 16 \<longrightarrow>
            fst (doRequestFollowRedirects scriptedDoer g req dst url
                   (map (Pair None) rs @ (None, r) # rest))
              = (StatusCode r, body r, Some errTooManyRedirects)
            \<and> snd (snd (doRequestFollowRedirects scriptedDoer g req dst url
                   (map (Pair None) rs @ (None, r) # rest))) = rest)
     \<and> (StatusCode r \<in> {301, 302, 303} \<and> length rs < 16 \<and> peek r strLocation = [] \<longrightarrow>
            fst (doRequestFollowRedirects scriptedDoer g req dst url
                   (map (Pair None) rs @ (None, r) # rest))
              = (StatusCode r, body r, Some errMissingLocation)
            \<and> snd (snd (doRequestFollowRedirects scriptedDoer g req dst url
                   (map (Pair None) rs @ (None, r) # rest))) = rest)"
proof -
  from assms(2) have l: "int (length rs) \<le> 16" by simp
  from followLoop_after_redirects [OF assms(1) l, of g req "emptyResponse\<lparr>body := dst\<rparr>" url 0 r rest]
  obtain req' where
    f: "followLoop scriptedDoer g req (emptyResponse\<lparr>body := dst\<rparr>) url 0 0
          (map (Pair None) rs @ (None, r) # rest)
       = (if StatusCode r \<noteq> 301 \<and> StatusCode r \<noteq> 302 \<and> StatusCode r \<noteq> 303
          then ((StatusCode r, None), req', r, rest)
          else if length rs = 16
          then ((StatusCode r, Some errTooManyRedirects), req', r, rest)
          else if peek r strLocation = []
          then ((StatusCode r, Some errMissingLocation), req', r, rest)
          else followLoop scriptedDoer g req' r (g (RequestURI req') (peek r strLocation))
                 (int (length rs) + 1) (StatusCode r) rest)"
    by blast
  show ?thesis
    unfolding doRequestFollowRedirects_def f by auto
qed

lemma redirectReply_examples:
  "redirectReply redirect302" "\<not> redirectReply redirectNoLocation"
  "StatusCode redirectNoLocation = 302" "peek redirectNoLocation strLocation = []"
  "StatusCode okResponse = 200" "body okResponse = ''OK''"
  "StatusCode temporaryRedirect307 = 307" "body temporaryRedirect307 = []"
  "StatusCode redirect302 = 302" "body redirect302 = []" "body redirectNoLocation = []"
  by (simp_all add: redirectReply_def redirect302_def redirectNoLocation_def okResponse_def
      temporaryRedirect307_def emptyResponse_def peek_def strLocation_def)

text \<open>
  Claim C5. Let the doer answer with \<open>k\<close> redirects, each with a Location that
  is not empty, then with a response \<open>final\<close> that is not a redirect. If \<open>k\<close> is at
  most 16, \<open>doRequestFollowRedirects\<close> returns the status and the body of \<open>final\<close>
  and no error, after \<open>k + 1\<close> requests. If \<open>k\<close> is at least 17, it returns
  \<open>errTooManyRedirects\<close> with the status and body of the 17th redirect, after
  17 requests.
\<close>

theorem redirects_bounded_by_16:
  "(\<forall>r \<in> set rs. redirectReply r) \<and> StatusCode final \<notin> {301, 302, 303} \<longrightarrow>
     (length rs \<le> 16 \<longrightarrow>
        fst (doRequestFollowRedirects scriptedDoer g req dst url
               (map (Pair None) rs @ (None, final) # rest))
          = (StatusCode final, body final, None)
        \<and> snd (snd (doRequestFollowRedirects scriptedDoer g req dst url
               (map (Pair None) rs @ (None, final) # rest))) = rest)
     \<and> (17 \<le> length rs \<longrightarrow>
        fst (doRequestFollowRedirects scriptedDoer g req dst url
               (map (Pair None) rs @ (None, final) # rest))
          = (StatusCode (rs ! 16), body (rs ! 16), Some errTooManyRedirects)
        \<and> snd (snd (doRequestFollowRedirects scriptedDoer g req dst url
               (map (Pair None) rs @ (None, final) # rest)))
          = map (Pair None) (drop 17 rs) @ (None, final) # rest)"
proof (intro impI conjI)
  assume h: "(\<forall>r \<in> set rs. redirectReply r) \<and> StatusCode final \<notin> {301, 302, 303}"
  assume k: "length rs \<le> 16"
  from h have a: "\<forall>r \<in> set rs. redirectReply r" by simp
  from doRequestFollowRedirects_after_redirects [OF a k, of final g req dst url rest] h
  show "fst (doRequestFollowRedirects scriptedDoer g req dst url
               (map (Pair None) rs @ (None, final) # rest))
          = (StatusCode final, body final, None)"
    and "snd (snd (doRequestFollowRedirects scriptedDoer g req dst url
               (map (Pair None) rs @ (None, final) # rest))) = rest"
    by blast+
next
  assume h: "(\<forall>r \<in> set rs. redirectReply r) \<and> StatusCode final \<notin> {301, 302, 303}"
  assume k: "17 \<le> length rs"
  let ?tail = "map (Pair None) (drop 17 rs) @ (None, final) # rest"
  have split: "rs = take 16 rs @ rs ! 16 # drop 17 rs"
    using k id_take_nth_drop [of 16 rs] by simp
  have script: "map (Pair None) rs @ (None, final) # rest
      = map (Pair None) (take 16 rs) @ (None, rs ! 16) # ?tail"
    by (subst split) simp
  have a: "\<forall>r \<in> set (take 16 rs). redirectReply r"
    using h by (auto dest: in_set_takeD)
  have l: "length (take 16 rs) \<le> 16" by simp
  have l16: "length (take 16 rs) = 16" using k by simp
  have "rs ! 16 \<in> set rs" using k by simp
  with h have st: "StatusCode (rs ! 16) \<in> {301, 302, 303}"
    by (auto simp: redirectReply_def)
  from doRequestFollowRedirects_after_redirects [OF a l, of "rs ! 16" g req dst url ?tail]
    st l16
  show "fst (doRequestFollowRedirects scriptedDoer g req dst url
               (map (Pair None) rs @ (None, final) # rest))
          = (StatusCode (rs ! 16), body (rs ! 16), Some errTooManyRedirects)"
    and "snd (snd (doRequestFollowRedirects scriptedDoer g req dst url
               (map (Pair None) rs @ (None, final) # rest)))
          = map (Pair None) (drop 17 rs) @ (None, final) # rest"
    unfolding script by blast+
qed

theorem redirects_bounded_by_16_witness:
  "fst (doRequestFollowRedirects scriptedDoer absoluteLocation getRequest [] ''/0''
          (map (Pair None) (replicate 16 redirect302) @ (None, okResponse) # []))
     = (200, ''OK'', None)
   \<and> fst (doRequestFollowRedirects scriptedDoer absoluteLocation getRequest [] ''/0''
          (map (Pair None) (replicate 17 redirect302) @ (None, okResponse) # []))
     = (302, [], Some errTooManyRedirects)"
proof -
  have a16: "\<forall>r \<in> set (replicate 16 redirect302). redirectReply r"
    and a17: "\<forall>r \<in> set (replicate 17 redirect302). redirectReply r"
    by (simp_all add: redirectReply_examples)
  have b: "StatusCode okResponse \<notin> {301, 302, 303}"
    by (simp add: redirectReply_examples)
  have l16: "length (replicate 16 redirect302) \<le> 16"
    and l17: "17 \<le> length (replicate 17 redirect302)" by simp_all
  have n: "replicate 17 redirect302 ! 16 = redirect302" by simp
  from redirects_bounded_by_16 [of "replicate 16 redirect302" okResponse
      absoluteLocation getRequest "[]" "''/0''" "[]"] a16 b l16
  have t1: "fst (doRequestFollowRedirects scriptedDoer absoluteLocation getRequest []
          ''/0'' (map (Pair None) (replicate 16 redirect302) @ (None, okResponse) # []))
     = (StatusCode okResponse, body okResponse, None)"
    by blast
  from redirects_bounded_by_16 [of "replicate 17 redirect302" okResponse
      absoluteLocation getRequest "[]" "''/0''" "[]"] a17 b l17
  have t2: "fst (doRequestFollowRedirects scriptedDoer absoluteLocation getRequest []
          ''/0'' (map (Pair None) (replicate 17 redirect302) @ (None, okResponse) # []))
     = (StatusCode (replicate 17 redirect302 ! 16), body (replicate 17 redirect302 ! 16),
        Some errTooManyRedirects)"
    by blast
  from t1 t2 show ?thesis
    unfolding n redirectReply_examples by blast
qed

text \<open>
  Claim C6, as stated, fails on the 17th redirect of a chain: the counter is
  checked before the Location is looked at, so a redirect without a Location
  that comes after 16 redirects ends the loop with \<open>errTooManyRedirects\<close>, not
  with \<open>errMissingLocation\<close>.
\<close>

theorem missing_location_counterexample:
  "StatusCode redirectNoLocation = 302 \<and> peek redirectNoLocation strLocation = []
   \<and> fst (doRequestFollowRedirects scriptedDoer absoluteLocation getRequest [] ''/0''
            (map (Pair None) (replicate 16 redirect302) @ (None, redirectNoLocation) # []))
       = (302, [], Some errTooManyRedirects)
   \<and> snd (snd (fst (doRequestFollowRedirects scriptedDoer absoluteLocation
            getRequest [] ''/0''
            (map (Pair None) (replicate 16 redirect302) @ (None, redirectNoLocation) # []))))
       \<noteq> Some errMissingLocation"
proof -
  have a: "\<forall>r \<in> set (replicate 16 redirect302). redirectReply r"
    by (simp add: redirectReply_examples)
  have l: "length (replicate 16 redirect302) \<le> 16" "length (replicate 16 redirect302) = 16"
    by simp_all
  have st: "StatusCode redirectNoLocation \<in> {301, 302, 303}"
    by (simp add: redirectReply_examples)
  from doRequestFollowRedirects_after_redirects [OF a l(1), of redirectNoLocation
      absoluteLocation getRequest "[]" "''/0''" "[]"] st l(2)
  have "fst (doRequestFollowRedirects scriptedDoer absoluteLocation getRequest []
          ''/0'' (map (Pair None) (replicate 16 redirect302) @ (None, redirectNoLocation) # []))
       = (StatusCode redirectNoLocation, body redirectNoLocation, Some errTooManyRedirects)"
    by blast
  then show ?thesis by (simp add: redirectReply_examples)
qed

text \<open>
  Claim C6, amended. Let the doer answer with at most 16 redirects that the
  follower follows and then with a response \<open>r\<close>.
  If the status of \<open>r\<close> is not 301, 302 or 303 (so also when it is 307 or 308),
  the loop ends and \<open>doRequestFollowRedirects\<close> returns the status and body of
  \<open>r\<close> with no error.
  If the status is 301, 302 or 303 and \<open>r\<close> is the 17th redirect, the loop ends
  with \<open>errTooManyRedirects\<close>, whatever the Location.
  If the status is 301, 302 or 303, \<open>r\<close> is among the first 16 redirects and its
  Location is empty or absent, the loop ends with \<open>errMissingLocation\<close>.
  If the status is 301, 302 or 303, \<open>r\<close> is among the first 16 redirects and its
  Location is not empty, the loop goes on: with \<open>r\<close> as the response, the
  Location resolved against the URL just requested as the next URL, and the
  counter one higher.
\<close>

theorem redirect_classification:
  "(\<forall>x \<in> set rs. redirectReply x) \<and> length rs \<le> 16 \<longrightarrow>
     (StatusCode r \<notin> {301, 302, 303} \<longrightarrow>
        fst (doRequestFollowRedirects scriptedDoer g req dst url
               (map (Pair None) rs @ (None, r) # rest)) = (StatusCode r, body r, None)
        \<and> snd (snd (doRequestFollowRedirects scriptedDoer g req dst url
               (map (Pair None) rs @ (None, r) # rest))) = rest)
     \<and> (StatusCode r \<in> {301, 302, 303} \<and> length rs = 16 \<longrightarrow>
        fst (doRequestFollowRedirects scriptedDoer g req dst url
               (map (Pair None) rs @ (None, r) # rest))
          = (StatusCode r, body r, Some errTooManyRedirects)
        \<and> snd (snd (doRequestFollowRedirects scriptedDoer g req dst url
               (map (Pair None) rs @ (None, r) # rest))) = rest)
     \<and> (StatusCode r \<in> {301, 302, 303} \<and> length rs < 16 \<and> peek r strLocation = [] \<longrightarrow>
        fst (doRequestFollowRedirects scriptedDoer g req dst url
               (map (Pair None) rs @ (None, r) # rest))
          = (StatusCode r, body r, Some errMissingLocation)
        \<and> snd (snd (doRequestFollowRedirects scriptedDoer g req dst url
               (map (Pair None) rs @ (None, r) # rest))) = rest)
     \<and> (StatusCode r \<in> {301, 302, 303} \<and> length rs < 16 \<and> peek r strLocation \<noteq> [] \<longrightarrow>
        (\<exists>req'. followLoop scriptedDoer g req (emptyResponse\<lparr>body := dst\<rparr>) url 0 0
                   (map (Pair None) rs @ (None, r) # rest)
                 = followLoop scriptedDoer g req' r (g (RequestURI req') (peek r strLocation))
                     (int (length rs) + 1) (StatusCode r) rest))"
proof (intro impI)
  assume h: "(\<forall>x \<in> set rs. redirectReply x) \<and> length rs \<le> 16"
  then have a: "\<forall>x \<in> set rs. redirectReply x" and l: "length rs \<le> 16" by simp_all
  from l have l': "int (length rs) \<le> 16" by simp
  note d = doRequestFollowRedirects_after_redirects [OF a l, of r g req dst url rest]
  from followLoop_after_redirects [OF a l', of g req "emptyResponse\<lparr>body := dst\<rparr>" url 0 r rest]
  have c: "StatusCode r \<in> {301, 302, 303} \<and> length rs < 16 \<and> peek r strLocation \<noteq> [] \<longrightarrow>
        (\<exists>req'. followLoop scriptedDoer g req (emptyResponse\<lparr>body := dst\<rparr>) url 0 0
                   (map (Pair None) rs @ (None, r) # rest)
                 = followLoop scriptedDoer g req' r (g (RequestURI req') (peek r strLocation))
                     (int (length rs) + 1) (StatusCode r) rest)"
    by auto
  from d c show "(StatusCode r \<notin> {301, 302, 303} \<longrightarrow>
        fst (doRequestFollowRedirects scriptedDoer g req dst url
               (map (Pair None) rs @ (None, r) # rest)) = (StatusCode r, body r, None)
        \<and> snd (snd (doRequestFollowRedirects scriptedDoer g req dst url
               (map (Pair None) rs @ (None, r) # rest))) = rest)
     \<and> (StatusCode r \<in> {301, 302, 303} \<and> length rs = 16 \<longrightarrow>
        fst (doRequestFollowRedirects scriptedDoer g req dst url
               (map (Pair None) rs @ (None, r) # rest))
          = (StatusCode r, body r, Some errTooManyRedirects)
        \<and> snd (snd (doRequestFollowRedirects scriptedDoer g req dst url
               (map (Pair None) rs @ (None, r) # rest))) = rest)
     \<and> (StatusCode r \<in> {301, 302, 303} \<and> length rs < 16 \<and> peek r strLocation = [] \<longrightarrow>
        fst (doRequestFollowRedirects scriptedDoer g req dst url
               (map (Pair None) rs @ (None, r) # rest))
          = (StatusCode r, body r, Some errMissingLocation)
        \<and> snd (snd (doRequestFollowRedirects scriptedDoer g req dst url
               (map (Pair None) rs @ (None, r) # rest))) = rest)
     \<and> (StatusCode r \<in> {301, 302, 303} \<and> length rs < 16 \<and> peek r strLocation \<noteq> [] \<longrightarrow>
        (\<exists>req'. followLoop scriptedDoer g req (emptyResponse\<lparr>body := dst\<rparr>) url 0 0
                   (map (Pair None) rs @ (None, r) # rest)
                 = followLoop scriptedDoer g req' r (g (RequestURI req') (peek r strLocation))
                     (int (length rs) + 1) (StatusCode r) rest))"
    by blast
qed

theorem redirect_classification_witness:
  "fst (doRequestFollowRedirects scriptedDoer absoluteLocation getRequest [] ''/0''
          (map (Pair None) [redirect302, redirect302] @ (None, temporaryRedirect307) # []))
     = (307, [], None)
   \<and> fst (doRequestFollowRedirects scriptedDoer absoluteLocation getRequest [] ''/0''
          (map (Pair None) [redirect302, redirect302] @ (None, redirectNoLocation) # []))
     = (302, [], Some errMissingLocation)"
proof -
  have a: "(\<forall>x \<in> set [redirect302, redirect302]. redirectReply x)
      \<and> length [redirect302, redirect302] \<le> 16"
    by (simp add: redirectReply_examples)
  have s1: "StatusCode temporaryRedirect307 \<notin> {301, 302, 303}"
    by (simp add: redirectReply_examples)
  have s2: "StatusCode redirectNoLocation \<in> {301, 302, 303}
      \<and> length [redirect302, redirect302] < 16 \<and> peek redirectNoLocation strLocation = []"
    by (simp add: redirectReply_examples)
  from redirect_classification [of "[redirect302, redirect302]" temporaryRedirect307
      absoluteLocation getRequest "[]" "''/0''" "[]"] a s1
  have t1: "fst (doRequestFollowRedirects scriptedDoer absoluteLocation getRequest []
          ''/0'' (map (Pair None) [redirect302, redirect302] @ (None, temporaryRedirect307) # []))
     = (StatusCode temporaryRedirect307, body temporaryRedirect307, None)"
    by blast
  from redirect_classification [of "[redirect302, redirect302]" redirectNoLocation
      absoluteLocation getRequest "[]" "''/0''" "[]"] a s2
  have t2: "fst (doRequestFollowRedirects scriptedDoer absoluteLocation getRequest []
          ''/0'' (map (Pair None) [redirect302, redirect302] @ (None, redirectNoLocation) # []))
     = (StatusCode redirectNoLocation, body redirectNoLocation, Some errMissingLocation)"
    by blast
  from t1 t2 show ?thesis
    unfolding redirectReply_examples by blast
qed

subsection \<open>Dialing\<close>

lemma nextAddr_clock:
  "dialsMade (snd (nextAddr c)) = dialsMade c \<and> now (snd (nextAddr c)) = now c"
  by (simp add: nextAddr_def Let_def)

lemma dialHost_unfold:
  "dialHost e c =
     (let r = dial e (dialsMade c) (dialAddr c);
          c2 = (snd (nextAddr c))\<lparr>dialsMade := dialsMade c + 1, now := now c + int (fst r)\<rparr>
      in case snd r of Inl err \<Rightarrow> ((None, Some err), c2)
                     | Inr conn \<Rightarrow> ((Some conn, None), c2))"
  unfolding dialHost_def dialAddr_def Let_def
  using nextAddr_clock [of c]
  by (cases "nextAddr c") (simp split: prod.splits sum.splits)


lemma dialLoop_Suc:
  "dialLoop e dl (Suc n) err0 c =
     (let r = dial e (dialsMade c) (dialAddr c);
          c1 = (snd (nextAddr c))\<lparr>dialsMade := dialsMade c + 1, now := now c + int (fst r)\<rparr>
      in case snd r of
           Inr conn \<Rightarrow> ((Some conn, None), c1)
         | Inl err1 \<Rightarrow> if Sub (now c1) dl \<ge> 0 then ((None, Some err1), c1)
                       else dialLoop e dl n (Some err1) c1)"
  by (simp add: dialHost_unfold Let_def split: sum.splits)

lemma dialLoop_summary:
  "\<exists>conn err c'. dialLoop e dl (Suc n) err0 c = ((conn, err), c')
     \<and> dialsMade c < dialsMade c' \<and> dialsMade c' \<le> dialsMade c + Suc n \<and> now c \<le> now c'
     \<and> ((err = None \<and> (\<exists>cn addr. conn = Some cn
                          \<and> snd (dial e (dialsMade c' - 1) addr) = Inr cn))
        \<or> (conn = None \<and> (\<exists>x addr. err = Some x
                          \<and> snd (dial e (dialsMade c' - 1) addr) = Inl x)
            \<and> (dialsMade c' < dialsMade c + Suc n \<longrightarrow> 0 \<le> Sub (now c') dl)))
     \<and> (\<forall>i. dialsMade c \<le> i \<and> i < dialsMade c' - 1
            \<longrightarrow> (\<exists>addr x. snd (dial e i addr) = Inl x))"
proof (induction n arbitrary: err0 c)
  case 0
  define r where "r = dial e (dialsMade c) (dialAddr c)"
  define c1 where "c1 = (snd (nextAddr c))\<lparr>dialsMade := dialsMade c + 1,
      now := now c + int (fst r)\<rparr>"
  have d1: "dialsMade c1 = dialsMade c + 1" and n1: "now c \<le> now c1"
    by (simp_all add: c1_def)
  show ?case
  proof (cases "snd r")
    case (Inr cn)
    then have "dialLoop e dl (Suc 0) err0 c = ((Some cn, None), c1)"
      by (simp add: dialLoop_Suc [of e dl 0] Let_def r_def c1_def del: dialLoop.simps(2))
    with d1 n1 Inr show ?thesis by (auto simp: r_def)
  next
    case (Inl err1)
    then have "dialLoop e dl (Suc 0) err0 c = ((None, Some err1), c1)"
      by (simp add: dialLoop_Suc [of e dl 0] Let_def r_def c1_def del: dialLoop.simps(2))
    with d1 n1 Inl show ?thesis by (auto simp: r_def)
  qed
next
  case (Suc n)
  define r where "r = dial e (dialsMade c) (dialAddr c)"
  define c1 where "c1 = (snd (nextAddr c))\<lparr>dialsMade := dialsMade c + 1,
      now := now c + int (fst r)\<rparr>"
  have d1: "dialsMade c1 = dialsMade c + 1" and n1: "now c \<le> now c1"
    by (simp_all add: c1_def)
  show ?case
  proof (cases "snd r")
    case (Inr cn)
    then have "dialLoop e dl (Suc (Suc n)) err0 c = ((Some cn, None), c1)"
      by (simp add: dialLoop_Suc [of e dl "Suc n"] Let_def r_def c1_def del: dialLoop.simps(2))
    with d1 n1 Inr show ?thesis by (auto simp: r_def)
  next
    case (Inl err1)
    show ?thesis
    proof (cases "Sub (now c1) dl \<ge> 0")
      case True
      with Inl have "dialLoop e dl (Suc (Suc n)) err0 c = ((None, Some err1), c1)"
        by (simp add: dialLoop_Suc [of e dl "Suc n"] Let_def r_def c1_def del: dialLoop.simps(2))
      with d1 n1 Inl True show ?thesis by (auto simp: r_def)
    next
      case False
      with Inl have u: "dialLoop e dl (Suc (Suc n)) err0 c = dialLoop e dl (Suc n) (Some err1) c1"
        by (simp add: dialLoop_Suc [of e dl "Suc n"] Let_def r_def c1_def del: dialLoop.simps(2))
      from Suc.IH [of "Some err1" c1] obtain conn err c' where
        ih: "dialLoop e dl (Suc n) (Some err1) c1 = ((conn, err), c')"
          "dialsMade c1 < dialsMade c'" "dialsMade c' \<le> dialsMade c1 + Suc n"
          "now c1 \<le> now c'"
          "(err = None \<and> (\<exists>cn addr. conn = Some cn
                          \<and> snd (dial e (dialsMade c' - 1) addr) = Inr cn))
           \<or> (conn = None \<and> (\<exists>x addr. err = Some x
                          \<and> snd (dial e (dialsMade c' - 1) addr) = Inl x)
               \<and> (dialsMade c' < dialsMade c1 + Suc n \<longrightarrow> 0 \<le> Sub (now c') dl))"
          "\<forall>i. dialsMade c1 \<le> i \<and> i < dialsMade c' - 1
            \<longrightarrow> (\<exists>addr x. snd (dial e i addr) = Inl x)"
        by blast
      have first: "\<exists>addr x. snd (dial e (dialsMade c) addr) = Inl x"
        using Inl by (auto simp: r_def)
      have earlier: "\<forall>i. dialsMade c \<le> i \<and> i < dialsMade c' - 1
            \<longrightarrow> (\<exists>addr x. snd (dial e i addr) = Inl x)"
      proof (intro allI impI)
        fix i assume i: "dialsMade c \<le> i \<and> i < dialsMade c' - 1"
        show "\<exists>addr x. snd (dial e i addr) = Inl x"
        proof (cases "i = dialsMade c")
          case True
          with first show ?thesis by simp
        next
          case False
          with i d1 have "dialsMade c1 \<le> i \<and> i < dialsMade c' - 1" by simp
          with ih(6) show ?thesis by blast
        qed
      qed
      have b1: "dialsMade c < dialsMade c'" using ih(2) d1 by simp
      have b2: "dialsMade c' \<le> dialsMade c + Suc (Suc n)" using ih(3) d1 by simp
      have b3: "now c \<le> now c'" using ih(4) n1 by simp
      have b4: "(err = None \<and> (\<exists>cn addr. conn = Some cn
                          \<and> snd (dial e (dialsMade c' - 1) addr) = Inr cn))
           \<or> (conn = None \<and> (\<exists>x addr. err = Some x
                          \<and> snd (dial e (dialsMade c' - 1) addr) = Inl x)
               \<and> (dialsMade c' < dialsMade c + Suc (Suc n) \<longrightarrow> 0 \<le> Sub (now c') dl))"
        using ih(5) d1 by simp
      show ?thesis
      proof (intro exI conjI)
        show "dialLoop e dl (Suc (Suc n)) err0 c = ((conn, err), c')"
          using u ih(1) by simp
        show "dialsMade c < dialsMade c'" by (rule b1)
        show "dialsMade c' \<le> dialsMade c + Suc (Suc n)" by (rule b2)
        show "now c \<le> now c'" by (rule b3)
        show "(err = None \<and> (\<exists>cn addr. conn = Some cn
                          \<and> snd (dial e (dialsMade c' - 1) addr) = Inr cn))
           \<or> (conn = None \<and> (\<exists>x addr. err = Some x
                          \<and> snd (dial e (dialsMade c' - 1) addr) = Inl x)
               \<and> (dialsMade c' < dialsMade c + Suc (Suc n) \<longrightarrow> 0 \<le> Sub (now c') dl))"
          by (rule b4)
        show "\<forall>i. dialsMade c \<le> i \<and> i < dialsMade c' - 1
            \<longrightarrow> (\<exists>addr x. snd (dial e i addr) = Inl x)"
          by (rule earlier)
      qed
    qed
  qed
qed

lemma Sub_nonneg: "0 \<le> Sub t u \<longleftrightarrow> u \<le> t"
  by (simp add: Sub_def minDuration_def maxDuration_def)

lemma dialTimeout_nonneg:
  assumes "0 \<le> ReadTimeout c" "0 \<le> WriteTimeout c"
    "ReadTimeout c + WriteTimeout c \<le> maxDuration"
  shows "dialTimeout e c = (if ReadTimeout c = 0 \<and> WriteTimeout c = 0
                            then DefaultDialTimeout e else ReadTimeout c + WriteTimeout c)"
proof -
  have "i64 (ReadTimeout c + WriteTimeout c) = ReadTimeout c + WriteTimeout c"
    using assms by (intro i64_id) (simp_all add: minInt_def maxInt_def maxDuration_def)
  with assms show ?thesis by (auto simp: dialTimeout_def Let_def)
qed

lemma dialLoop_stops_early:
  assumes "snd (dial e (dialsMade c) (dialAddr c)) = Inl x"
    "dl \<le> now c + int (fst (dial e (dialsMade c) (dialAddr c)))"
  shows "fst (dialLoop e dl (Suc n) err0 c) = (None, Some x)
         \<and> dialsMade (snd (dialLoop e dl (Suc n) err0 c)) = dialsMade c + 1"
  using assms
  by (simp add: dialLoop_Suc [of e dl n] Let_def Sub_nonneg del: dialLoop.simps(2))

text \<open>
  Claim C8, as stated, fails where it says that \<open>dialHostHard\<close> falls back to
  \<open>DefaultDialTimeout\<close> exactly when both timeouts are zero. The code falls back
  whenever the sum, an \<^verbatim>\<open>int64\<close>, is not positive: with both timeouts at the
  largest Duration the sum wraps around, and with a negative \<open>ReadTimeout\<close> it is
  negative. In the second case the deadline of the claim (one second before
  the start) would stop the loop after one failed attempt, while the code goes
  on to the second address.
\<close>

theorem dial_deadline_counterexample:
  "ReadTimeout (exampleClient\<lparr>ReadTimeout := maxDuration, WriteTimeout := maxDuration\<rparr>) \<noteq> 0
   \<and> WriteTimeout (exampleClient\<lparr>ReadTimeout := maxDuration, WriteTimeout := maxDuration\<rparr>) \<noteq> 0
   \<and> dialTimeout failEnv (exampleClient\<lparr>ReadTimeout := maxDuration, WriteTimeout := maxDuration\<rparr>)
       = DefaultDialTimeout failEnv
   \<and> ReadTimeout (exampleClient\<lparr>ReadTimeout := - Second, addrs := [''a'', ''b'']\<rparr>) \<noteq> 0
   \<and> dialTimeout failEnv (exampleClient\<lparr>ReadTimeout := - Second, addrs := [''a'', ''b'']\<rparr>)
       = DefaultDialTimeout failEnv
   \<and> dialsMade (snd (dialHostHard failEnv
         (exampleClient\<lparr>ReadTimeout := - Second, addrs := [''a'', ''b'']\<rparr>))) = 2"
  by (simp add: dialTimeout_def dialHostHard_def dialHost_def nextAddr_def addMissingPort_def
      failEnv_def exampleEnv_def exampleClient_def maxDuration_def minDuration_def Second_def
      i64_def Sub_def Let_def numeral_2_eq_2)

text \<open>
  Claim C8, amended. \<open>dialHostHard\<close> runs its loop with the counter at
  \<open>len(addrs)\<close>, or at 1 when the address list is not yet populated, and with
  the deadline \<open>now + dialTimeout\<close>, where \<open>dialTimeout\<close> is the wrapping sum
  \<open>ReadTimeout + WriteTimeout\<close>, replaced by \<open>DefaultDialTimeout\<close> exactly when that
  sum is not positive; for timeouts that are not negative and whose sum does
  not overflow, that is exactly when both are zero. It makes at least one dial
  and at most \<open>len(addrs)\<close> dials (exactly one when the list is not populated).
  It returns either the connection of its last dial, or the error of its last
  dial; every dial before the last one failed; and when it gives up before the
  counter is used up, the deadline has passed. After a failed dial the loop
  stops at once if the deadline has passed, with the error of that dial.
\<close>

theorem dialHostHard_attempts_and_deadline:
  "dialHostHard e c
     = dialLoop e (now c + dialTimeout e c)
         (if addrs c = [] then 1 else length (addrs c)) None c
   \<and> dialTimeout e c
     = (if i64 (ReadTimeout c + WriteTimeout c) \<le> 0 then DefaultDialTimeout e
        else i64 (ReadTimeout c + WriteTimeout c))
   \<and> (0 \<le> ReadTimeout c \<and> 0 \<le> WriteTimeout c
        \<and> ReadTimeout c + WriteTimeout c \<le> maxDuration \<longrightarrow>
        dialTimeout e c = (if ReadTimeout c = 0 \<and> WriteTimeout c = 0
                           then DefaultDialTimeout e else ReadTimeout c + WriteTimeout c))
   \<and> (\<exists>conn err c'. dialHostHard e c = ((conn, err), c')
        \<and> dialsMade c < dialsMade c'
        \<and> dialsMade c' \<le> dialsMade c + max 1 (length (addrs c))
        \<and> (addrs c = [] \<longrightarrow> dialsMade c' = dialsMade c + 1)
        \<and> ((err = None \<and> (\<exists>cn addr. conn = Some cn
                             \<and> snd (dial e (dialsMade c' - 1) addr) = Inr cn))
           \<or> (conn = None \<and> (\<exists>x addr. err = Some x
                             \<and> snd (dial e (dialsMade c' - 1) addr) = Inl x)
               \<and> (dialsMade c' < dialsMade c + max 1 (length (addrs c))
                    \<longrightarrow> now c + dialTimeout e c \<le> now c')))
        \<and> (\<forall>i. dialsMade c \<le> i \<and> i < dialsMade c' - 1
               \<longrightarrow> (\<exists>addr x. snd (dial e i addr) = Inl x)))
   \<and> (snd (dial e (dialsMade c) (dialAddr c)) = Inl x
        \<and> dl \<le> now c + int (fst (dial e (dialsMade c) (dialAddr c))) \<longrightarrow>
        fst (dialLoop e dl (Suc n) err0 c) = (None, Some x)
        \<and> dialsMade (snd (dialLoop e dl (Suc n) err0 c)) = dialsMade c + 1)"
proof (intro conjI)
  show u: "dialHostHard e c
     = dialLoop e (now c + dialTimeout e c)
         (if addrs c = [] then 1 else length (addrs c)) None c"
    by (simp add: dialHostHard_def Let_def)
  show "dialTimeout e c
     = (if i64 (ReadTimeout c + WriteTimeout c) \<le> 0 then DefaultDialTimeout e
        else i64 (ReadTimeout c + WriteTimeout c))"
    by (simp add: dialTimeout_def Let_def)
  show "0 \<le> ReadTimeout c \<and> 0 \<le> WriteTimeout c
        \<and> ReadTimeout c + WriteTimeout c \<le> maxDuration \<longrightarrow>
        dialTimeout e c = (if ReadTimeout c = 0 \<and> WriteTimeout c = 0
                           then DefaultDialTimeout e else ReadTimeout c + WriteTimeout c)"
    using dialTimeout_nonneg [of c e] by blast
  show "snd (dial e (dialsMade c) (dialAddr c)) = Inl x
        \<and> dl \<le> now c + int (fst (dial e (dialsMade c) (dialAddr c))) \<longrightarrow>
        fst (dialLoop e dl (Suc n) err0 c) = (None, Some x)
        \<and> dialsMade (snd (dialLoop e dl (Suc n) err0 c)) = dialsMade c + 1"
    using dialLoop_stops_early [of e c x dl n err0] by blast
  define m where "m = (if addrs c = [] then 0 else length (addrs c) - 1)"
  have n: "(if addrs c = [] then 1 else length (addrs c)) = Suc m"
    by (cases "addrs c") (simp_all add: m_def)
  have mx: "max 1 (length (addrs c)) = Suc m"
    by (cases "addrs c") (simp_all add: m_def)
  have m0: "addrs c = [] \<Longrightarrow> m = 0" by (simp add: m_def)
  from dialLoop_summary [of e "now c + dialTimeout e c" m None c]
  obtain conn err c' where
    s: "dialLoop e (now c + dialTimeout e c) (Suc m) None c = ((conn, err), c')"
      "dialsMade c < dialsMade c'" "dialsMade c' \<le> dialsMade c + Suc m"
      "(err = None \<and> (\<exists>cn addr. conn = Some cn
                          \<and> snd (dial e (dialsMade c' - 1) addr) = Inr cn))
       \<or> (conn = None \<and> (\<exists>x addr. err = Some x
                          \<and> snd (dial e (dialsMade c' - 1) addr) = Inl x)
           \<and> (dialsMade c' < dialsMade c + Suc m
                \<longrightarrow> 0 \<le> Sub (now c') (now c + dialTimeout e c)))"
      "\<forall>i. dialsMade c \<le> i \<and> i < dialsMade c' - 1
            \<longrightarrow> (\<exists>addr x. snd (dial e i addr) = Inl x)"
    by blast
  show "\<exists>conn err c'. dialHostHard e c = ((conn, err), c')
        \<and> dialsMade c < dialsMade c'
        \<and> dialsMade c' \<le> dialsMade c + max 1 (length (addrs c))
        \<and> (addrs c = [] \<longrightarrow> dialsMade c' = dialsMade c + 1)
        \<and> ((err = None \<and> (\<exists>cn addr. conn = Some cn
                             \<and> snd (dial e (dialsMade c' - 1) addr) = Inr cn))
           \<or> (conn = None \<and> (\<exists>x addr. err = Some x
                             \<and> snd (dial e (dialsMade c' - 1) addr) = Inl x)
               \<and> (dialsMade c' < dialsMade c + max 1 (length (addrs c))
                    \<longrightarrow> now c + dialTimeout e c \<le> now c')))
        \<and> (\<forall>i. dialsMade c \<le> i \<and> i < dialsMade c' - 1
               \<longrightarrow> (\<exists>addr x. snd (dial e i addr) = Inl x))"
  proof (intro exI conjI)
    show "dialHostHard e c = ((conn, err), c')"
      using u s(1) n by simp
    show "dialsMade c < dialsMade c'" by (rule s(2))
    show "dialsMade c' \<le> dialsMade c + max 1 (length (addrs c))"
      using s(3) mx by simp
    show "addrs c = [] \<longrightarrow> dialsMade c' = dialsMade c + 1"
      using s(2,3) m0 by auto
    show "(err = None \<and> (\<exists>cn addr. conn = Some cn
                             \<and> snd (dial e (dialsMade c' - 1) addr) = Inr cn))
           \<or> (conn = None \<and> (\<exists>x addr. err = Some x
                             \<and> snd (dial e (dialsMade c' - 1) addr) = Inl x)
               \<and> (dialsMade c' < dialsMade c + max 1 (length (addrs c))
                    \<longrightarrow> now c + dialTimeout e c \<le> now c'))"
      using s(4) unfolding mx Sub_nonneg .
    show "\<forall>i. dialsMade c \<le> i \<and> i < dialsMade c' - 1
               \<longrightarrow> (\<exists>addr x. snd (dial e i addr) = Inl x)"
      by (rule s(5))
  qed
qed

theorem dialHostHard_attempts_and_deadline_witness:
  "dialTimeout exampleEnv (exampleClient\<lparr>ReadTimeout := 2 * Second, WriteTimeout := 3 * Second\<rparr>)
     = 2 * Second + 3 * Second
   \<and> dialTimeout exampleEnv exampleClient = DefaultDialTimeout exampleEnv
   \<and> fst (dialLoop failEnv 1000 (Suc 1) None exampleClient) = (None, Some (OtherError ''refused''))
   \<and> dialsMade (snd (dialLoop failEnv 1000 (Suc 1) None exampleClient))
       = dialsMade exampleClient + 1"
proof -
  let ?c = "exampleClient\<lparr>ReadTimeout := 2 * Second, WriteTimeout := 3 * Second\<rparr>"
  have h1: "0 \<le> ReadTimeout ?c \<and> 0 \<le> WriteTimeout ?c
      \<and> ReadTimeout ?c + WriteTimeout ?c \<le> maxDuration"
    by (simp add: Second_def maxDuration_def)
  have z1: "\<not> (ReadTimeout ?c = 0 \<and> WriteTimeout ?c = 0)"
    "ReadTimeout ?c + WriteTimeout ?c = 2 * Second + 3 * Second"
    by (simp_all add: Second_def)
  have h2: "0 \<le> ReadTimeout exampleClient \<and> 0 \<le> WriteTimeout exampleClient
      \<and> ReadTimeout exampleClient + WriteTimeout exampleClient \<le> maxDuration"
    "ReadTimeout exampleClient = 0 \<and> WriteTimeout exampleClient = 0"
    by (simp_all add: exampleClient_def maxDuration_def)
  have h3: "snd (dial failEnv (dialsMade exampleClient) (dialAddr exampleClient))
        = Inl (OtherError ''refused'')
      \<and> 1000 \<le> now exampleClient
            + int (fst (dial failEnv (dialsMade exampleClient) (dialAddr exampleClient)))"
    by (simp add: failEnv_def exampleClient_def)
  note t1 = dialHostHard_attempts_and_deadline [where e = exampleEnv and c = ?c,
      THEN conjunct2, THEN conjunct2, THEN conjunct1, THEN mp, OF h1]
  note t2 = dialHostHard_attempts_and_deadline [where e = exampleEnv and c = exampleClient,
      THEN conjunct2, THEN conjunct2, THEN conjunct1, THEN mp, OF h2(1)]
  note t3 = dialHostHard_attempts_and_deadline [where e = failEnv and c = exampleClient
      and x = "OtherError ''refused''" and dl = 1000 and n = 1 and ?err0.0 = None,
      THEN conjunct2, THEN conjunct2, THEN conjunct2, THEN conjunct2, THEN mp, OF h3]
  have a: "dialTimeout exampleEnv ?c = 2 * Second + 3 * Second"
    unfolding t1 using z1 by simp
  have b: "dialTimeout exampleEnv exampleClient = DefaultDialTimeout exampleEnv"
    unfolding t2 using h2(2) by simp
  from a b t3 show ?thesis by simp
qed

end
